theory Spec2Isabelle
  imports Main
begin

section \<open>Congressional trading data fetcher: the model of \<open>data_fetcher.py\<close>\<close>

text \<open>
  Conventions of the embedding.
  \<^item> A Python \<open>str\<close> is a \<open>string\<close> holding its UTF-8 bytes; the only non-ASCII
    character of the module, the en dash of \<open>"1K-15K"\<close> and of the money pattern, is the
    three bytes \<open>E2 80 93\<close>.
  \<^item> A naive \<open>datetime\<close> is an \<open>int\<close>: microseconds on the proleptic Gregorian time
    line, the resolution of Python's \<open>datetime\<close>. A \<open>timedelta\<close> is an \<open>int\<close> of
    microseconds as well.
  \<^item> A call that may raise returns an \<open>outcome\<close>, \<open>Raises\<close> for an exception of class
    \<open>Exception\<close>; every \<open>try/except\<close> of the source is a case distinction on it.
  \<^item> Everything outside the process (network, remote servers, the wall clock) is a
    world of an arbitrary type \<open>'w\<close>, threaded through every call that touches it.
\<close>

datatype 'a outcome = Raises | Returns 'a

type_synonym time = int

definition microseconds_per_day :: int where
  "microseconds_per_day = 86400000000"

definition timedelta_days :: "int \<Rightarrow> int" where
  "timedelta_days d = d * microseconds_per_day"

definition timedelta_minutes :: "int \<Rightarrow> int" where
  "timedelta_minutes m = m * 60000000"

text \<open>
  The calendar day of a datetime. The source stores \<open>strftime("%Y-%m-%d")\<close> of it, a
  rendering that preserves the order of days; the model keeps the day number itself.
\<close>

definition date_of :: "time \<Rightarrow> int" where
  "date_of t = t div microseconds_per_day"

subsection \<open>Libraries and the outside world\<close>

text \<open>
  What the module takes from outside the repository, over a world \<open>'w\<close>:
  \<^item> \<open>now\<close>: \<open>datetime.now()\<close>, a reading of the wall clock;
  \<^item> \<open>str_datetime\<close>: \<open>str\<close> of a datetime, as an f-string renders it;
  \<^item> \<open>strftime_seconds\<close>: \<open>strftime("%Y-%m-%d %H:%M:%S")\<close>;
  \<^item> \<open>session_get\<close>: \<open>CompanyNameLookup.session.get(url, timeout=5)\<close> with the decoding
    of its body;
  \<^item> \<open>sleep\<close>: \<open>time.sleep(0.1)\<close>;
  \<^item> \<open>elapse\<close>: the time that passes in the process before it reads the clock again
    without having called out in between;
  \<^item> \<open>re_findall\<close>: \<open>re.findall(pattern, text)\<close>.
\<close>

text \<open>
  One element of the \<open>results\<close> array of the ticker service: \<open>Result symbol name\<close> for a
  JSON object, each key present (with a string) or absent; \<open>Malformed\<close> for an element on
  which \<open>result.get('symbol', '').upper()\<close> raises (not an object, or a symbol that is
  not a string). A name is taken to be a string.
\<close>

datatype api_result = Malformed | Result "string option" "string option"

text \<open>
  The decoded body: \<open>Body results\<close> for a JSON object, with \<open>data.get('results', [])\<close>
  a list (empty when the key is absent); \<open>BadBody\<close> when \<open>response.json()\<close> or the
  reading of \<open>results\<close> raises.
\<close>

datatype api_body = BadBody | Body "api_result list"

datatype api_response = ConnectionFailed | Response int api_body

record 'w env =
  now :: "'w \<Rightarrow> time"
  str_datetime :: "time \<Rightarrow> string"
  strftime_seconds :: "time \<Rightarrow> string"
  session_get :: "string \<Rightarrow> 'w \<Rightarrow> api_response \<times> 'w"
  sleep :: "'w \<Rightarrow> 'w"
  elapse :: "'w \<Rightarrow> 'w"
  re_findall :: "string \<Rightarrow> string \<Rightarrow> string list"

subsection \<open>Strings\<close>

text \<open>
  \<open>str.upper\<close> and \<open>str.strip\<close> on ASCII: the letters \<open>a\<close> to \<open>z\<close> are raised, the
  white space of \<open>str.isspace\<close> (tab to carriage return, the four separators \<open>1C\<close> to
  \<open>1F\<close>, space) is stripped; bytes beyond ASCII are left as they are.
\<close>

definition upper_char :: "char \<Rightarrow> char" where
  "upper_char c =
     (let n = (of_char c :: nat) in if 97 \<le> n \<and> n \<le> 122 then char_of (n - 32) else c)"

definition upper :: "string \<Rightarrow> string" where
  "upper s = map upper_char s"

definition is_space :: "char \<Rightarrow> bool" where
  "is_space c =
     (let n = (of_char c :: nat) in (9 \<le> n \<and> n \<le> 13) \<or> (28 \<le> n \<and> n \<le> 32))"

definition strip :: "string \<Rightarrow> string" where
  "strip s = rev (dropWhile is_space (rev (dropWhile is_space s)))"

definition backslash :: char where
  "backslash = CHR 0x5C"

definition en_dash :: string where
  "en_dash = [CHR 0xE2, CHR 0x80, CHR 0x93]"

subsection \<open>\<open>CompanyNameLookup\<close>\<close>

text \<open>
  The object: its \<open>cache\<close> dictionary, and the URLs requested through its \<open>session\<close> so
  far (ghost state, oldest first).
\<close>

record CompanyNameLookup =
  cache :: "string \<rightharpoonup> string"
  session_log :: "string list"

definition CompanyNameLookup_init :: CompanyNameLookup where
  "CompanyNameLookup_init = \<lparr>cache = Map.empty, session_log = []\<rparr>"

definition base_url :: string where
  "base_url = ''https://ticker-2e1ica8b9.now.sh''"

definition lookup_url :: "string \<Rightarrow> string" where
  "lookup_url t = base_url @ ''/keyword/'' @ t @ ''/limit/1''"

definition company_for :: "string \<Rightarrow> string" where
  "company_for t = ''Company for '' @ t"

definition get_default :: "'a option \<Rightarrow> 'a \<Rightarrow> 'a" where
  "get_default v d = (case v of None \<Rightarrow> d | Some x \<Rightarrow> x)"

text \<open>
  The loop \<open>for result in results\<close> looking for the exact ticker: \<open>Some (Returns name)\<close>
  at the \<open>return\<close> inside the loop, \<open>Some Raises\<close> when an element raises first,
  \<open>None\<close> when the loop ends without a match.
\<close>

fun find_exact :: "string \<Rightarrow> api_result list \<Rightarrow> string outcome option" where
  "find_exact t [] = None"
| "find_exact t (Malformed # rs) = Some Raises"
| "find_exact t (Result symbol nm # rs) =
     (if upper (get_default symbol []) = t then Some (Returns (get_default nm (company_for t)))
      else find_exact t rs)"

text \<open>
  The body of the \<open>try\<close> after the request: \<open>Returns (Some name)\<close> at a \<open>return\<close> inside
  it, \<open>Returns None\<close> when it falls through to the fallback, \<open>Raises\<close> on an exception.
\<close>

definition try_lookup :: "string \<Rightarrow> api_response \<Rightarrow> string option outcome" where
  "try_lookup t response =
     (case response of
        ConnectionFailed \<Rightarrow> Raises
      | Response status_code body \<Rightarrow>
          if status_code = 200 then
            (case body of
               BadBody \<Rightarrow> Raises
             | Body results \<Rightarrow>
                 if results \<noteq> [] \<and> length results > 0 then
                   (case find_exact t results of
                      Some Raises \<Rightarrow> Raises
                    | Some (Returns company_name) \<Rightarrow> Returns (Some company_name)
                    | None \<Rightarrow>
                        (case results of
                           Result symbol nm # rs \<Rightarrow> Returns (Some (get_default nm (company_for t)))
                         | _ \<Rightarrow> Raises))
                 else Returns None)
          else Returns None)"

text \<open>
  \<open>get_company_name\<close>. The argument is \<open>None\<close> for Python's \<open>None\<close>. The result is the
  name, the object after the call and the world after the call.
\<close>

definition get_company_name ::
  "'w env \<Rightarrow> string option \<Rightarrow> CompanyNameLookup \<Rightarrow> 'w \<Rightarrow> string \<times> CompanyNameLookup \<times> 'w" where
  "get_company_name env tkr lk w =
     (if tkr = None \<or> tkr = Some [] then (''Unknown Company'', lk, w)
      else
        let t = strip (upper (the tkr)) in
        (case cache lk t of
           Some cached \<Rightarrow> (cached, lk, w)
         | None \<Rightarrow>
             (case session_get env (lookup_url t) w of
                (response, w1) \<Rightarrow>
                  let lk1 = lk\<lparr>session_log := session_log lk @ [lookup_url t]\<rparr> in
                  (case try_lookup t response of
                     Returns (Some company_name) \<Rightarrow>
                       (company_name, lk1\<lparr>cache := (cache lk1)(t \<mapsto> company_name)\<rparr>, w1)
                   | _ \<Rightarrow>
                       let lk2 = lk1\<lparr>cache := (cache lk1)(t \<mapsto> company_for t)\<rparr>;
                           w2 = sleep env w1
                       in (get_default (cache lk2 t) (company_for t), lk2, w2)))))"

text \<open>
  A client of the object: the calls \<open>get_company_name(t)\<close> for the tickers of a list,
  one after the other, with the names they return.
\<close>

fun get_company_names ::
  "'w env \<Rightarrow> string option list \<Rightarrow> CompanyNameLookup \<Rightarrow> 'w \<Rightarrow>
     string list \<times> CompanyNameLookup \<times> 'w" where
  "get_company_names env [] lk w = ([], lk, w)"
| "get_company_names env (t # ts) lk w =
     (case get_company_name env t lk w of
        (n, lk1, w1) \<Rightarrow>
          (case get_company_names env ts lk1 w1 of (ns, lk2, w2) \<Rightarrow> (n # ns, lk2, w2)))"

subsection \<open>Trade records and data frames\<close>

text \<open>The dictionary built in \<open>_generate_pattern_based_trades\<close>, one field per key.\<close>

record trade =
  politician_name :: string
  party :: string
  chamber :: string
  state :: string
  district :: string
  company :: string
  ticker :: string
  sector :: string
  trade_date :: int
  disclosure_date :: int
  reporting_delay :: int
  transaction_type :: string
  trade_size :: string
  price :: string
  owner :: string

text \<open>
  A \<open>pandas.DataFrame\<close> of trades is the list of its rows: \<open>pd.DataFrame()\<close> is \<open>[]\<close>,
  \<open>pd.DataFrame(trades)\<close> is \<open>trades\<close>, \<open>df.empty\<close> is \<open>df = []\<close> and \<open>len(df)\<close> is
  \<open>length df\<close>.
\<close>

type_synonym dataframe = "trade list"

subsection \<open>Sources (\<open>DataFetcherBase\<close>)\<close>

text \<open>
  A source is its \<open>name\<close> (both sources of the module set it in \<open>__init__\<close>) and its
  two abstract methods. Each method reads and changes the world and either returns or
  raises.
\<close>

record 'w fetcher =
  name :: string
  is_available :: "'w \<Rightarrow> bool outcome \<times> 'w"
  fetch_data :: "'w \<Rightarrow> dataframe outcome \<times> 'w"

text \<open>
  The trace of a run of the coordinator (ghost state): \<open>Attempt\<close> when
  \<open>fetch_fresh_data\<close> is entered, then one event per method call on the source at the
  given position of \<open>self.fetchers\<close>, with what the call did.
\<close>

datatype event =
  Attempt
  | IsAvailable nat "bool outcome"
  | FetchData nat "dataframe outcome"

fun rank :: "event \<Rightarrow> nat" where
  "rank Attempt = 0"
| "rank (IsAvailable i r) = 2 * i + 1"
| "rank (FetchData i r) = 2 * i + 2"

fun source_of :: "event \<Rightarrow> nat option" where
  "source_of Attempt = None"
| "source_of (IsAvailable i r) = Some i"
| "source_of (FetchData i r) = Some i"

text \<open>
  A trace is a true record of a run from world \<open>w\<close> when each of its events, in order, is
  the call of that method on the source at that position of the list, made in the world
  the calls before it left, with the answer the event gives; \<open>replay\<close> then yields the
  world the last call leaves.
\<close>

fun replay :: "'w fetcher list \<Rightarrow> 'w \<Rightarrow> event list \<Rightarrow> 'w option" where
  "replay fs w [] = Some w"
| "replay fs w (Attempt # es) = replay fs w es"
| "replay fs w (IsAvailable i a # es) =
     (if i < length fs \<and> fst (is_available (fs ! i) w) = a
      then replay fs (snd (is_available (fs ! i) w)) es else None)"
| "replay fs w (FetchData i x # es) =
     (if i < length fs \<and> fst (fetch_data (fs ! i) w) = x
      then replay fs (snd (fetch_data (fs ! i) w)) es else None)"

subsection \<open>\<open>DataManager\<close>\<close>

record 'w DataManager =
  fetchers :: "'w fetcher list"
  cache_duration :: int
  last_fetch_time :: "time option"
  cached_data :: "dataframe option"

text \<open>\<open>DataManager.__init__\<close>, for a configured source list.\<close>

definition DataManager_init :: "'w fetcher list \<Rightarrow> 'w DataManager" where
  "DataManager_init fs =
     \<lparr>fetchers = fs, cache_duration = timedelta_minutes 30,
      last_fetch_time = None, cached_data = None\<rparr>"

text \<open>
  The body of the \<open>try\<close> in the loop of \<open>fetch_fresh_data\<close>, for the source at
  position \<open>i\<close>: \<open>Raises\<close> when a method raises, \<open>Returns None\<close> when the loop goes on
  (\<open>continue\<close>, or empty data), \<open>Returns (Some (data, name))\<close> at the \<open>return\<close>.
\<close>

definition try_fetcher ::
  "nat \<Rightarrow> 'w fetcher \<Rightarrow> 'w \<Rightarrow> (dataframe \<times> string) option outcome \<times> 'w \<times> event list" where
  "try_fetcher i f w =
     (case is_available f w of
        (Raises, w1) \<Rightarrow> (Raises, w1, [IsAvailable i Raises])
      | (Returns a, w1) \<Rightarrow>
          if \<not> a then (Returns None, w1, [IsAvailable i (Returns a)])
          else
            (case fetch_data f w1 of
               (Raises, w2) \<Rightarrow> (Raises, w2, [IsAvailable i (Returns a), FetchData i Raises])
             | (Returns data, w2) \<Rightarrow>
                 (Returns (if data \<noteq> [] then Some (data, name f) else None), w2,
                  [IsAvailable i (Returns a), FetchData i (Returns data)])))"

text \<open>
  The \<open>for fetcher in self.fetchers\<close> loop from position \<open>i\<close> on; \<open>except Exception\<close>
  continues with the next source, and the end of the list is the failure result.
\<close>

fun try_fetchers ::
  "nat \<Rightarrow> 'w fetcher list \<Rightarrow> 'w \<Rightarrow> (dataframe \<times> string) \<times> 'w \<times> event list" where
  "try_fetchers i [] w = (([], ''No source available''), w, [])"
| "try_fetchers i (f # fs) w =
     (case try_fetcher i f w of
        (Returns (Some found), w1, evs) \<Rightarrow> (found, w1, evs)
      | (Returns None, w1, evs) \<Rightarrow>
          (case try_fetchers (Suc i) fs w1 of (r, w2, evs2) \<Rightarrow> (r, w2, evs @ evs2))
      | (Raises, w1, evs) \<Rightarrow>
          (case try_fetchers (Suc i) fs w1 of (r, w2, evs2) \<Rightarrow> (r, w2, evs @ evs2)))"

definition fetch_fresh_data ::
  "'w DataManager \<Rightarrow> 'w \<Rightarrow> (dataframe \<times> string) \<times> 'w \<times> event list" where
  "fetch_fresh_data dm w =
     (case try_fetchers 0 (fetchers dm) w of (r, w1, evs) \<Rightarrow> (r, w1, Attempt # evs))"

text \<open>The label of a result served from the cache; \<open>None\<close> renders as \<open>"None"\<close>.\<close>

definition cached_label :: "'w env \<Rightarrow> time option \<Rightarrow> string" where
  "cached_label env t =
     ''Cached data (last updated: '' @
       (case t of None \<Rightarrow> ''None'' | Some t' \<Rightarrow> str_datetime env t') @ '')''"

text \<open>
  \<open>get_data\<close>: the result, the manager after the call, the world after the call and the
  trace of the coordinator (empty when it was not called).
\<close>

definition get_data ::
  "'w env \<Rightarrow> bool \<Rightarrow> 'w DataManager \<Rightarrow> 'w \<Rightarrow>
     (dataframe \<times> string) \<times> 'w DataManager \<times> 'w \<times> event list" where
  "get_data env force_refresh dm w =
     (if force_refresh \<or>
         (case last_fetch_time dm of
            None \<Rightarrow> True
          | Some t \<Rightarrow> cached_data dm = None \<or> now env w - t > cache_duration dm)
      then
        (case fetch_fresh_data dm w of
           ((data, source), w1, tr) \<Rightarrow>
             if data \<noteq> [] then
               ((data, source),
                dm\<lparr>cached_data := Some data, last_fetch_time := Some (now env w1)\<rparr>, w1, tr)
             else
               (case cached_data dm of
                  Some c \<Rightarrow> ((c, cached_label env (last_fetch_time dm)), dm, w1, tr)
                | None \<Rightarrow> (([], source), dm, w1, tr)))
      else
        ((case cached_data dm of Some c \<Rightarrow> c | None \<Rightarrow> [],
          cached_label env (last_fetch_time dm)), dm, w, []))"

text \<open>The values of the dictionary of \<open>get_cache_status\<close>.\<close>

datatype pyval = PyStr string | PyInt int | PyBool bool

text \<open>
  \<open>int(delta.total_seconds() / 60)\<close>: whole minutes, rounded towards zero. The source
  computes the quotient in double precision; the model computes it exactly.
\<close>

definition whole_minutes :: "int \<Rightarrow> int" where
  "whole_minutes d = (if 0 \<le> d then d div 60000000 else - ((- d) div 60000000))"

text \<open>
  \<open>get_cache_status\<close>: the dictionary, as its items in insertion order, and the manager
  after the call.
\<close>

definition get_cache_status ::
  "'w env \<Rightarrow> 'w DataManager \<Rightarrow> 'w \<Rightarrow> (string \<times> pyval) list \<times> 'w DataManager" where
  "get_cache_status env dm w =
     (case last_fetch_time dm of
        None \<Rightarrow> ([(''status'', PyStr ''No data fetched yet'')], dm)
      | Some t \<Rightarrow>
          let cache_age = now env w - t;
              cache_remaining = cache_duration dm - cache_age
          in ([(''last_updated'', PyStr (strftime_seconds env t)),
               (''cache_age_minutes'', PyInt (whole_minutes cache_age)),
               (''cache_valid'', PyBool (cache_remaining > 0)),
               (''cache_remaining_minutes'', PyInt (max 0 (whole_minutes cache_remaining))),
               (''total_records'',
                PyInt (case cached_data dm of Some c \<Rightarrow> int (length c) | None \<Rightarrow> 0))],
              dm))"

text \<open>
  The invariant of the manager's state: \<open>__init__\<close> establishes it and every method
  keeps it. The time to live is thirty minutes, and the fetch time and the cached frame
  are set together.
\<close>

definition manager_inv :: "'w DataManager \<Rightarrow> bool" where
  "manager_inv dm =
     (cache_duration dm = timedelta_minutes 30
      \<and> ((last_fetch_time dm = None) = (cached_data dm = None)))"

subsection \<open>Random choices\<close>

text \<open>
  The generator of \<open>random\<close> is an endless supply of raw draws. \<open>randint\<close> and \<open>choice\<close>
  reduce one draw to their range, so every outcome the library allows, and no other,
  comes from some supply. \<open>choice\<close> of an empty sequence and \<open>randint\<close> of an empty
  range raise in Python; the module calls them on non-empty literals only.
\<close>

type_synonym rng = "nat \<Rightarrow> nat"

definition randbelow :: "nat \<Rightarrow> rng \<Rightarrow> nat \<times> rng" where
  "randbelow n g = (g 0 mod n, (\<lambda>k. g (Suc k)))"

definition randint :: "int \<Rightarrow> int \<Rightarrow> rng \<Rightarrow> int \<times> rng" where
  "randint a b g = (case randbelow (nat (b - a + 1)) g of (k, g1) \<Rightarrow> (a + int k, g1))"

definition choice :: "'a list \<Rightarrow> rng \<Rightarrow> 'a \<times> rng" where
  "choice xs g = (case randbelow (length xs) g of (k, g1) \<Rightarrow> (xs ! k, g1))"

subsection \<open>Pattern-based extraction of \<open>CapitolTradesHTMLFetcher\<close>\<close>

record politician =
  pol_name :: string
  pol_party :: string
  pol_chamber :: string
  pol_state :: string

definition politicians :: "politician list" where
  "politicians =
     [\<lparr>pol_name = ''Nancy Pelosi'', pol_party = ''Democrat'', pol_chamber = ''House'',
       pol_state = ''CA''\<rparr>,
      \<lparr>pol_name = ''Dan Crenshaw'', pol_party = ''Republican'', pol_chamber = ''House'',
       pol_state = ''TX''\<rparr>,
      \<lparr>pol_name = ''Josh Gottheimer'', pol_party = ''Democrat'', pol_chamber = ''House'',
       pol_state = ''NJ''\<rparr>]"

text \<open>
  The body of the loop of \<open>_generate_pattern_based_trades\<close> for index \<open>i\<close>, in the order
  in which the source draws, looks up and reads the clock. The source calls
  \<open>datetime.now()\<close> twice, once for each date, and time passes before each reading. The
  index is in range of both lists at every call.
\<close>

definition make_trade ::
  "'w env \<Rightarrow> string list \<Rightarrow> string list \<Rightarrow> nat \<Rightarrow> CompanyNameLookup \<Rightarrow> 'w \<Rightarrow> rng \<Rightarrow>
     trade \<times> CompanyNameLookup \<times> 'w \<times> rng" where
  "make_trade env money_amounts stock_symbols i lk w g =
     (case choice politicians g of
        (pol, g1) \<Rightarrow>
          let tkr = stock_symbols ! i in
          (case get_company_name env (Some tkr) lk w of
             (company_name, lk1, w1) \<Rightarrow>
               let w2 = elapse env w1; now1 = now env w2 in
               (case randint 1 30 g1 of
                  (d1, g2) \<Rightarrow>
                    let w3 = elapse env w2; now2 = now env w3 in
                    (case randint 1 15 g2 of
                       (d2, g3) \<Rightarrow>
                         (case randint 1 30 g3 of
                            (d3, g4) \<Rightarrow>
                              (case choice [''Buy'', ''Sell''] g4 of
                                 (tt, g5) \<Rightarrow>
                                   (\<lparr>politician_name = pol_name pol,
                                     party = pol_party pol,
                                     chamber = pol_chamber pol,
                                     state = pol_state pol,
                                     district = ''Multiple'',
                                     company = company_name,
                                     ticker = tkr,
                                     sector = ''Technology'',
                                     trade_date = date_of (now1 - timedelta_days d1),
                                     disclosure_date = date_of (now2 - timedelta_days d2),
                                     reporting_delay = d3,
                                     transaction_type = tt,
                                     trade_size =
                                       (if CHR ''K'' \<in> set (money_amounts ! i)
                                        then money_amounts ! i
                                        else ''1K'' @ en_dash @ ''15K''),
                                     price =
                                       (if CHR ''$'' \<in> set (money_amounts ! i)
                                        then money_amounts ! i
                                        else ''$150.00''),
                                     owner = ''Self''\<rparr>,
                                    lk1, w3, g5)))))))"

text \<open>The \<open>for i in range(...)\<close> loop, appending to \<open>trades\<close>.\<close>

fun trades_loop ::
  "'w env \<Rightarrow> string list \<Rightarrow> string list \<Rightarrow> nat list \<Rightarrow> trade list \<Rightarrow>
     CompanyNameLookup \<Rightarrow> 'w \<Rightarrow> rng \<Rightarrow> trade list \<times> CompanyNameLookup \<times> 'w \<times> rng" where
  "trades_loop env money_amounts stock_symbols [] trades lk w g = (trades, lk, w, g)"
| "trades_loop env money_amounts stock_symbols (i # rest) trades lk w g =
     (case make_trade env money_amounts stock_symbols i lk w g of
        (trade, lk1, w1, g1) \<Rightarrow>
          trades_loop env money_amounts stock_symbols rest (trades @ [trade]) lk1 w1 g1)"

definition generate_pattern_based_trades ::
  "'w env \<Rightarrow> string list \<Rightarrow> string list \<Rightarrow> CompanyNameLookup \<Rightarrow> 'w \<Rightarrow> rng \<Rightarrow>
     trade list \<times> CompanyNameLookup \<times> 'w \<times> rng" where
  "generate_pattern_based_trades env money_amounts stock_symbols lk w g =
     trades_loop env money_amounts stock_symbols
       [0 ..< min 10 (min (length money_amounts) (length stock_symbols))] [] lk w g"

text \<open>The two patterns of \<open>_extract_content_patterns\<close>, character by character.\<close>

definition money_pattern :: string where
  "money_pattern =
     backslash # ''$['' @ backslash # ''d,]+(?:'' @ backslash # ''.'' @ backslash # ''d{2})?|'' @
     backslash # ''d+K['' @ en_dash @ ''-]'' @ backslash # ''d+K''"

definition stock_pattern :: string where
  "stock_pattern = backslash # ''b[A-Z]{3,5}'' @ backslash # ''b''"

text \<open>
  \<open>_extract_content_patterns\<close>; its \<open>soup\<close> argument is not used by the source. The
  result is the list of trade dictionaries.
\<close>

definition extract_content_patterns ::
  "'w env \<Rightarrow> string \<Rightarrow> CompanyNameLookup \<Rightarrow> 'w \<Rightarrow> rng \<Rightarrow>
     trade list \<times> CompanyNameLookup \<times> 'w \<times> rng" where
  "extract_content_patterns env page_text lk w g =
     (let money_matches = re_findall env money_pattern page_text;
          stock_matches = re_findall env stock_pattern page_text
      in if length money_matches > 5 \<and> length stock_matches > 5
         then generate_pattern_based_trades env (take 20 money_matches) (take 20 stock_matches)
                lk w g
         else ([], lk, w, g))"

text \<open>
  What the loop body gives every record it builds (used in the proofs below): the three
  constant fields, a politician of the roster, a delay from 1 to 30 and one of the two
  transaction types.
\<close>

definition synthesized :: "trade \<Rightarrow> bool" where
  "synthesized t =
     (owner t = ''Self'' \<and> district t = ''Multiple'' \<and> sector t = ''Technology''
      \<and> (\<exists>p \<in> set politicians. politician_name t = pol_name p \<and> party t = pol_party p
             \<and> chamber t = pol_chamber p \<and> state t = pol_state p)
      \<and> 1 \<le> reporting_delay t \<and> reporting_delay t \<le> 30
      \<and> (transaction_type t = ''Buy'' \<or> transaction_type t = ''Sell''))"


section \<open>Example inputs\<close>

text \<open>
  Concrete inputs on which the model is run: a world that is the wall clock in
  microseconds, an implementation of \<open>re.findall\<close> for the two patterns of the module on
  ASCII text, a ticker service, and some sources.
\<close>

subsection \<open>The two patterns on ASCII text\<close>

text \<open>
  \<open>re.findall\<close> scans from left to right and, where the pattern matches, takes the match
  and goes on behind it. The money pattern is a dollar sign, a longest run of digits and
  commas and, if they follow, a dot and two digits; or digits, \<open>K\<close>, a hyphen or an en
  dash, digits, \<open>K\<close>. The stock pattern is three to five capitals between two word
  boundaries. Digits and word characters are the ASCII ones.
\<close>

definition is_digit :: "char \<Rightarrow> bool" where
  "is_digit c = (let n = (of_char c :: nat) in 48 \<le> n \<and> n \<le> 57)"

definition is_upper_letter :: "char \<Rightarrow> bool" where
  "is_upper_letter c = (let n = (of_char c :: nat) in 65 \<le> n \<and> n \<le> 90)"

definition is_word_char :: "char \<Rightarrow> bool" where
  "is_word_char c =
     (let n = (of_char c :: nat)
      in (48 \<le> n \<and> n \<le> 57) \<or> (65 \<le> n \<and> n \<le> 90) \<or> (97 \<le> n \<and> n \<le> 122) \<or> n = 95)"

definition is_amount_char :: "char \<Rightarrow> bool" where
  "is_amount_char c = (is_digit c \<or> c = CHR '','')"

definition match_dollar :: "string \<Rightarrow> string option" where
  "match_dollar s =
     (case s of
        [] \<Rightarrow> None
      | c # r \<Rightarrow>
          if c \<noteq> CHR ''$'' then None
          else
            let run = takeWhile is_amount_char r; after = dropWhile is_amount_char r in
            if run = [] then None
            else
              (case after of
                 p # a # b # _ \<Rightarrow>
                   if p = CHR ''.'' \<and> is_digit a \<and> is_digit b then Some (c # run @ [p, a, b])
                   else Some (c # run)
               | _ \<Rightarrow> Some (c # run)))"

definition match_range :: "string \<Rightarrow> string option" where
  "match_range s =
     (let d1 = takeWhile is_digit s; r1 = dropWhile is_digit s in
      if d1 = [] \<or> take 1 r1 \<noteq> ''K'' then None
      else
        let r2 = drop 1 r1;
            dash = (if take 1 r2 = ''-'' then ''-''
                    else if take 3 r2 = en_dash then en_dash else [])
        in if dash = [] then None
           else
             let r3 = drop (length dash) r2;
                 d2 = takeWhile is_digit r3;
                 r4 = dropWhile is_digit r3
             in if d2 = [] \<or> take 1 r4 \<noteq> ''K'' then None
                else Some (d1 @ ''K'' @ dash @ d2 @ ''K''))"

definition match_money :: "string \<Rightarrow> string option" where
  "match_money s = (case match_dollar s of Some m \<Rightarrow> Some m | None \<Rightarrow> match_range s)"

fun scan_money :: "nat \<Rightarrow> string \<Rightarrow> string list" where
  "scan_money k [] = []"
| "scan_money (Suc k) (c # r) = scan_money k r"
| "scan_money 0 (c # r) =
     (case match_money (c # r) of
        Some m \<Rightarrow> m # scan_money (length m - 1) r
      | None \<Rightarrow> scan_money 0 r)"

definition boundary_after :: "nat \<Rightarrow> string \<Rightarrow> bool" where
  "boundary_after n s = (case drop n s of [] \<Rightarrow> True | c # _ \<Rightarrow> \<not> is_word_char c)"

definition match_stock :: "bool \<Rightarrow> string \<Rightarrow> string option" where
  "match_stock prev_word s =
     (if prev_word then None
      else
        (case filter (\<lambda>n. n \<le> length (takeWhile is_upper_letter s) \<and> boundary_after n s)
                [5, 4, 3] of
           n # _ \<Rightarrow> Some (take n s)
         | [] \<Rightarrow> None))"

fun scan_stock :: "nat \<Rightarrow> bool \<Rightarrow> string \<Rightarrow> string list" where
  "scan_stock k prev_word [] = []"
| "scan_stock (Suc k) prev_word (c # r) = scan_stock k (is_word_char c) r"
| "scan_stock 0 prev_word (c # r) =
     (case match_stock prev_word (c # r) of
        Some m \<Rightarrow> m # scan_stock (length m - 1) (is_word_char c) r
      | None \<Rightarrow> scan_stock 0 (is_word_char c) r)"

definition ascii_findall :: "string \<Rightarrow> string \<Rightarrow> string list" where
  "ascii_findall pattern s =
     (if pattern = money_pattern then scan_money 0 s
      else if pattern = stock_pattern then scan_stock 0 False s
      else [])"


subsection \<open>A clock world, a ticker service and an environment\<close>

text \<open>
  The example renders a datetime as its microseconds in decimal, answers every request
  after a quarter of a second, and lets a microsecond pass before a reading of the clock.
\<close>

primrec dec_digits :: "nat \<Rightarrow> int \<Rightarrow> string" where
  "dec_digits 0 n = []"
| "dec_digits (Suc k) n = dec_digits k (n div 10) @ [''0123456789'' ! nat (n mod 10)]"

definition example_get :: "string \<Rightarrow> int \<Rightarrow> api_response \<times> int" where
  "example_get url w =
     (if url = lookup_url ''NVDA'' then
        Response 200 (Body [Result (Some ''NVD'') (Some ''Nuvectra''),
                            Result (Some ''nvda'') (Some ''NVIDIA Corporation'')])
      else if url = lookup_url ''AAPL'' then
        Response 200 (Body [Result (Some ''APLE'') (Some ''Apple Hospitality REIT''), Malformed])
      else if url = lookup_url ''MSFT'' then Response 503 BadBody
      else ConnectionFailed,
      w + 250000)"

definition example_env :: "int env" where
  "example_env =
     \<lparr>now = (\<lambda>w. w),
      str_datetime = (\<lambda>t. dec_digits 16 t),
      strftime_seconds = (\<lambda>t. dec_digits 10 (t div 1000000)),
      session_get = example_get,
      sleep = (\<lambda>w. w + 100000),
      elapse = (\<lambda>w. w + 1),
      re_findall = ascii_findall\<rparr>"

definition example_calls :: "string option list" where
  "example_calls =
     [Some ''nvda'', Some '' MSFT '', Some ''Nvda'', Some ''msft'', None, Some ''nvda'',
      Some ''aapl'']"

subsection \<open>Sources\<close>

text \<open>Every method call of an example source takes one second.\<close>

definition sample_trade :: trade where
  "sample_trade =
     \<lparr>politician_name = ''Nancy Pelosi'', party = ''Democrat'', chamber = ''House'',
      state = ''CA'', district = ''Multiple'', company = ''Company for NVDA'',
      ticker = ''NVDA'', sector = ''Technology'', trade_date = 739900,
      disclosure_date = 739910, reporting_delay = 10, transaction_type = ''Buy'',
      trade_size = ''1K-15K'', price = ''$150.00'', owner = ''Self''\<rparr>"

definition source_raising :: "int fetcher" where
  "source_raising =
     \<lparr>name = ''raising'', is_available = (\<lambda>w. (Raises, w + 1000000)),
      fetch_data = (\<lambda>w. (Returns [sample_trade], w + 1000000))\<rparr>"

definition source_down :: "int fetcher" where
  "source_down =
     \<lparr>name = ''down'', is_available = (\<lambda>w. (Returns False, w + 1000000)),
      fetch_data = (\<lambda>w. (Returns [sample_trade], w + 1000000))\<rparr>"

definition source_empty :: "int fetcher" where
  "source_empty =
     \<lparr>name = ''empty'', is_available = (\<lambda>w. (Returns True, w + 1000000)),
      fetch_data = (\<lambda>w. (Returns [], w + 1000000))\<rparr>"

definition source_good :: "int fetcher" where
  "source_good =
     \<lparr>name = ''good'', is_available = (\<lambda>w. (Returns True, w + 1000000)),
      fetch_data = (\<lambda>w. (Returns [sample_trade], w + 1000000))\<rparr>"

definition source_later :: "int fetcher" where
  "source_later =
     \<lparr>name = ''later'', is_available = (\<lambda>w. (Returns True, w + 1000000)),
      fetch_data = (\<lambda>w. (Returns [sample_trade, sample_trade], w + 1000000))\<rparr>"

definition example_sources :: "int fetcher list" where
  "example_sources = [source_raising, source_down, source_empty, source_good, source_later]"

definition failing_sources :: "int fetcher list" where
  "failing_sources = [source_raising, source_down, source_empty]"

subsection \<open>Managers\<close>

text \<open>
  Two managers that fetched \<open>sample_trade\<close> at time 0: one whose sources work, one whose
  sources have all failed since.
\<close>

definition fresh_manager :: "int DataManager" where
  "fresh_manager =
     \<lparr>fetchers = example_sources, cache_duration = timedelta_minutes 30,
      last_fetch_time = Some 0, cached_data = Some [sample_trade]\<rparr>"

definition stale_manager :: "int DataManager" where
  "stale_manager =
     \<lparr>fetchers = failing_sources, cache_duration = timedelta_minutes 30,
      last_fetch_time = Some 0, cached_data = Some [sample_trade]\<rparr>"

subsection \<open>Page texts, a clock and a supply of draws\<close>

text \<open>
  A page with five money tokens and five ticker candidates, and one with six of each;
  nine o'clock on day 739923; the draws 0, 1, 2, ...
\<close>

definition five_token_page :: string where
  "five_token_page = ''NVDA $1,250.00 AAPL $300 MSFT 15K-50K TSLA $42.50 AMZN $7''"

definition six_token_page :: string where
  "six_token_page = ''NVDA $1,250.00 AAPL $300 MSFT 15K-50K TSLA $42.50 AMZN $7 GOOG $99''"

definition example_rng :: rng where
  "example_rng = (\<lambda>n. n)"

definition example_clock :: int where
  "example_clock = 63929379600000000"

section \<open>Evaluation of the examples\<close>

lemmas example_source_defs =
  source_raising_def source_down_def source_empty_def source_good_def source_later_def
  example_sources_def failing_sources_def DataManager_init_def

section \<open>The source fallback coordinator\<close>

text \<open>What one pass of the loop body can do, and the trace it leaves.\<close>

lemma try_fetcher_shape:
  assumes "try_fetcher i f w = (r, w1, evs)"
  shows "(r = Raises \<and> evs = [IsAvailable i Raises])
       \<or> (r = Returns None \<and> evs = [IsAvailable i (Returns False)])
       \<or> (r = Raises \<and> evs = [IsAvailable i (Returns True), FetchData i Raises])
       \<or> (r = Returns None \<and> evs = [IsAvailable i (Returns True), FetchData i (Returns [])])
       \<or> (\<exists>d. d \<noteq> [] \<and> r = Returns (Some (d, name f))
              \<and> evs = [IsAvailable i (Returns True), FetchData i (Returns d)])"
  using assms
  by (auto simp: try_fetcher_def split: prod.splits outcome.splits if_splits)

lemma try_fetchers_rank_lower:
  "try_fetchers i fs w = (r, w', tr) \<Longrightarrow> e \<in> set tr \<Longrightarrow> 2 * i + 1 \<le> rank e"
proof (induction fs arbitrary: i w r w' tr)
  case Nil
  then show ?case by simp
next
  case (Cons f fs)
  obtain r1 w1 evs where tf: "try_fetcher i f w = (r1, w1, evs)"
    by (cases "try_fetcher i f w") auto
  obtain r2 w2 evs2 where rest: "try_fetchers (Suc i) fs w1 = (r2, w2, evs2)"
    by (cases "try_fetchers (Suc i) fs w1") auto
  have head: "e \<in> set evs \<Longrightarrow> 2 * i + 1 \<le> rank e"
    using try_fetcher_shape[OF tf] by auto
  have tail: "e \<in> set evs2 \<Longrightarrow> 2 * i + 1 \<le> rank e"
    using Cons.IH[OF rest] by simp
  from Cons.prems tf rest have "set tr \<subseteq> set evs \<union> set evs2"
    by (auto split: outcome.splits option.splits)
  with head tail Cons.prems(2) show ?case by blast
qed

lemma try_fetchers_sorted:
  "try_fetchers i fs w = (r, w', tr) \<Longrightarrow> sorted_wrt (<) (map rank tr)"
proof (induction fs arbitrary: i w r w' tr)
  case Nil
  then show ?case by simp
next
  case (Cons f fs)
  obtain r1 w1 evs where tf: "try_fetcher i f w = (r1, w1, evs)"
    by (cases "try_fetcher i f w") auto
  obtain r2 w2 evs2 where rest: "try_fetchers (Suc i) fs w1 = (r2, w2, evs2)"
    by (cases "try_fetchers (Suc i) fs w1") auto
  have s1: "sorted_wrt (<) (map rank evs)" and up: "\<And>e. e \<in> set evs \<Longrightarrow> rank e \<le> 2 * i + 2"
    using try_fetcher_shape[OF tf] by auto
  have s2: "sorted_wrt (<) (map rank evs2)"
    using Cons.IH[OF rest] .
  have lo: "\<And>e. e \<in> set evs2 \<Longrightarrow> 2 * i + 3 \<le> rank e"
    using try_fetchers_rank_lower[OF rest] by fastforce
  have both: "sorted_wrt (<) (map rank (evs @ evs2))"
    using s1 s2 up lo by (fastforce simp: sorted_wrt_append)
  from Cons.prems tf rest have "tr = evs \<or> tr = evs @ evs2"
    by (auto split: outcome.splits option.splits)
  with s1 both show ?case by auto
qed

lemma try_fetchers_fetch_after_available:
  "try_fetchers i fs w = (r, w', tr) \<Longrightarrow> FetchData j x \<in> set tr \<Longrightarrow>
     IsAvailable j (Returns True) \<in> set tr"
proof (induction fs arbitrary: i w r w' tr)
  case Nil
  then show ?case by simp
next
  case (Cons f fs)
  obtain r1 w1 evs where tf: "try_fetcher i f w = (r1, w1, evs)"
    by (cases "try_fetcher i f w") auto
  obtain r2 w2 evs2 where rest: "try_fetchers (Suc i) fs w1 = (r2, w2, evs2)"
    by (cases "try_fetchers (Suc i) fs w1") auto
  have head: "FetchData j x \<in> set evs \<Longrightarrow> IsAvailable j (Returns True) \<in> set evs"
    using try_fetcher_shape[OF tf] by auto
  have tail: "FetchData j x \<in> set evs2 \<Longrightarrow> IsAvailable j (Returns True) \<in> set evs2"
    using Cons.IH[OF rest] by simp
  from Cons.prems tf rest have "tr = evs \<or> tr = evs @ evs2"
    by (auto split: outcome.splits option.splits)
  with head tail Cons.prems(2) show ?case by auto
qed

lemma try_fetchers_success:
  "try_fetchers i fs w = ((data, label), w', tr) \<Longrightarrow> data \<noteq> [] \<Longrightarrow>
     \<exists>j<length fs. tr \<noteq> [] \<and> last tr = FetchData (i + j) (Returns data)
        \<and> label = name (fs ! j)
        \<and> (\<forall>k d. FetchData k (Returns d) \<in> set (butlast tr) \<longrightarrow> d = [])
        \<and> (\<forall>k\<le>j. \<exists>a. IsAvailable (i + k) a \<in> set tr)"
proof (induction fs arbitrary: i w w' tr)
  case Nil
  then show ?case by simp
next
  case (Cons f fs)
  obtain r1 w1 evs where tf: "try_fetcher i f w = (r1, w1, evs)"
    by (cases "try_fetcher i f w") auto
  obtain r2 w2 evs2 where rest: "try_fetchers (Suc i) fs w1 = (r2, w2, evs2)"
    by (cases "try_fetchers (Suc i) fs w1") auto
  have probed: "\<exists>a. IsAvailable i a \<in> set evs"
    using try_fetcher_shape[OF tf] by auto
  show ?case
  proof (cases "\<exists>found. r1 = Returns (Some found)")
    case True
    then obtain found where r1: "r1 = Returns (Some found)" by blast
    with Cons.prems tf have res: "found = (data, label)" "tr = evs" "w' = w1" by auto
    from try_fetcher_shape[OF tf] r1 res
    have "evs = [IsAvailable i (Returns True), FetchData i (Returns data)]" "label = name f"
      by auto
    with res show ?thesis by (intro exI[of _ 0]) auto
  next
    case False
    with Cons.prems tf rest have res: "r2 = (data, label)" "tr = evs @ evs2" "w' = w2"
      by (auto split: outcome.splits option.splits)
    from False try_fetcher_shape[OF tf]
    have quiet: "\<forall>k d. FetchData k (Returns d) \<in> set evs \<longrightarrow> d = []" by auto
    from Cons.IH[OF rest[unfolded res(1)] Cons.prems(2)]
    obtain j where j: "j < length fs" "evs2 \<noteq> []"
        "last evs2 = FetchData (Suc i + j) (Returns data)" "label = name (fs ! j)"
        "\<forall>k d. FetchData k (Returns d) \<in> set (butlast evs2) \<longrightarrow> d = []"
        "\<forall>k\<le>j. \<exists>a. IsAvailable (Suc i + k) a \<in> set evs2"
      by blast
    have all: "\<forall>k\<le>Suc j. \<exists>a. IsAvailable (i + k) a \<in> set tr"
    proof (intro allI impI)
      fix k assume "k \<le> Suc j"
      show "\<exists>a. IsAvailable (i + k) a \<in> set tr"
      proof (cases k)
        case 0
        with probed res show ?thesis by auto
      next
        case (Suc k')
        with \<open>k \<le> Suc j\<close> j(6) res show ?thesis by auto
      qed
    qed
    from j quiet res have "\<forall>k d. FetchData k (Returns d) \<in> set (butlast tr) \<longrightarrow> d = []"
      by (auto simp: butlast_append)
    with j res all show ?thesis by (intro exI[of _ "Suc j"]) auto
  qed
qed

lemma try_fetchers_failure:
  "try_fetchers i fs w = ((data, label), w', tr) \<Longrightarrow> data = [] \<Longrightarrow>
     label = ''No source available''
     \<and> (\<forall>k d. FetchData k (Returns d) \<in> set tr \<longrightarrow> d = [])
     \<and> (\<forall>k<length fs. \<exists>a. IsAvailable (i + k) a \<in> set tr)"
proof (induction fs arbitrary: i w w' tr)
  case Nil
  then show ?case by simp
next
  case (Cons f fs)
  obtain r1 w1 evs where tf: "try_fetcher i f w = (r1, w1, evs)"
    by (cases "try_fetcher i f w") auto
  obtain r2 w2 evs2 where rest: "try_fetchers (Suc i) fs w1 = (r2, w2, evs2)"
    by (cases "try_fetchers (Suc i) fs w1") auto
  have probed: "\<exists>a. IsAvailable i a \<in> set evs"
    using try_fetcher_shape[OF tf] by auto
  have nofound: "\<not> (\<exists>found. r1 = Returns (Some found))"
  proof
    assume "\<exists>found. r1 = Returns (Some found)"
    then obtain found where r1: "r1 = Returns (Some found)" by blast
    with Cons.prems tf have "found = (data, label)" by auto
    with try_fetcher_shape[OF tf] r1 Cons.prems(2) show False by auto
  qed
  with Cons.prems tf rest have res: "r2 = (data, label)" "tr = evs @ evs2" "w' = w2"
    by (auto split: outcome.splits option.splits)
  from nofound try_fetcher_shape[OF tf]
  have quiet: "\<forall>k d. FetchData k (Returns d) \<in> set evs \<longrightarrow> d = []" by auto
  from Cons.IH[OF rest[unfolded res(1)] Cons.prems(2)]
  have ih: "label = ''No source available''"
      "\<forall>k d. FetchData k (Returns d) \<in> set evs2 \<longrightarrow> d = []"
      "\<forall>k<length fs. \<exists>a. IsAvailable (Suc i + k) a \<in> set evs2"
    by blast+
  have all: "\<forall>k<length (f # fs). \<exists>a. IsAvailable (i + k) a \<in> set tr"
  proof (intro allI impI)
    fix k assume "k < length (f # fs)"
    show "\<exists>a. IsAvailable (i + k) a \<in> set tr"
    proof (cases k)
      case 0
      with probed res show ?thesis by auto
    next
      case (Suc k')
      with \<open>k < length (f # fs)\<close> ih(3) res show ?thesis by auto
    qed
  qed
  from ih quiet res all show ?case by auto
qed



text \<open>The trace is a true record of the calls made, and a probed source is fetched.\<close>

lemma replay_append:
  "replay fs w (es1 @ es2) =
     (case replay fs w es1 of None \<Rightarrow> None | Some w1 \<Rightarrow> replay fs w1 es2)"
proof (induction es1 arbitrary: w)
  case Nil
  then show ?case by simp
next
  case (Cons e es1)
  then show ?case by (cases e) simp_all
qed

lemma try_fetcher_replay:
  assumes "i < length fs" and "try_fetcher i (fs ! i) w = (r, w1, evs)"
  shows "replay fs w evs = Some w1"
  using assms
  by (auto simp: try_fetcher_def split: prod.splits outcome.splits if_splits)

lemma try_fetchers_replay:
  "rest = drop i fs \<Longrightarrow> try_fetchers i rest w = (r, w', tr) \<Longrightarrow> replay fs w tr = Some w'"
proof (induction rest arbitrary: i w r w' tr)
  case Nil
  then show ?case by simp
next
  case (Cons f rest)
  from Cons.prems(1) have i: "i < length fs"
    by (metis drop_all list.simps(3) not_le)
  with Cons.prems(1) have f: "f = fs ! i" and tl: "rest = drop (Suc i) fs"
    by (metis Cons_nth_drop_Suc list.inject)+
  obtain r1 w1 evs where tf: "try_fetcher i f w = (r1, w1, evs)"
    by (cases "try_fetcher i f w") auto
  obtain r2 w2 evs2 where more: "try_fetchers (Suc i) rest w1 = (r2, w2, evs2)"
    by (cases "try_fetchers (Suc i) rest w1") auto
  have head: "replay fs w evs = Some w1"
    using try_fetcher_replay[OF i tf[unfolded f]] .
  have tail: "replay fs w1 evs2 = Some w2"
    using Cons.IH[OF tl more] .
  from Cons.prems(2) tf more
  have "(tr = evs \<and> w' = w1) \<or> (tr = evs @ evs2 \<and> w' = w2)"
    by (auto split: outcome.splits option.splits)
  with head tail show ?case by (auto simp: replay_append)
qed

lemma try_fetchers_available_fetched:
  "try_fetchers i fs w = (r, w', tr) \<Longrightarrow> IsAvailable j (Returns True) \<in> set tr \<Longrightarrow>
     \<exists>x. FetchData j x \<in> set tr"
proof (induction fs arbitrary: i w r w' tr)
  case Nil
  then show ?case by simp
next
  case (Cons f fs)
  obtain r1 w1 evs where tf: "try_fetcher i f w = (r1, w1, evs)"
    by (cases "try_fetcher i f w") auto
  obtain r2 w2 evs2 where rest: "try_fetchers (Suc i) fs w1 = (r2, w2, evs2)"
    by (cases "try_fetchers (Suc i) fs w1") auto
  have head: "IsAvailable j (Returns True) \<in> set evs \<Longrightarrow> \<exists>x. FetchData j x \<in> set evs"
    using try_fetcher_shape[OF tf] by auto
  have tail: "IsAvailable j (Returns True) \<in> set evs2 \<Longrightarrow> \<exists>x. FetchData j x \<in> set evs2"
    using Cons.IH[OF rest] by simp
  from Cons.prems tf rest have "tr = evs \<or> tr = evs @ evs2"
    by (auto split: outcome.splits option.splits)
  with head tail Cons.prems(2) show ?case by fastforce
qed

lemma try_fetchers_in_range:
  "try_fetchers i fs w = (r, w', tr) \<Longrightarrow> e \<in> set tr \<Longrightarrow> source_of e = Some k \<Longrightarrow>
     k < i + length fs"
proof (induction fs arbitrary: i w r w' tr)
  case Nil
  then show ?case by simp
next
  case (Cons f fs)
  obtain r1 w1 evs where tf: "try_fetcher i f w = (r1, w1, evs)"
    by (cases "try_fetcher i f w") auto
  obtain r2 w2 evs2 where rest: "try_fetchers (Suc i) fs w1 = (r2, w2, evs2)"
    by (cases "try_fetchers (Suc i) fs w1") auto
  have head: "e \<in> set evs \<Longrightarrow> k = i"
    using try_fetcher_shape[OF tf] Cons.prems(3) by auto
  have tail: "e \<in> set evs2 \<Longrightarrow> k < Suc i + length fs"
    using Cons.IH[OF rest _ Cons.prems(3)] by simp
  from Cons.prems(1) tf rest have "tr = evs \<or> tr = evs @ evs2"
    by (auto split: outcome.splits option.splits)
  with head tail Cons.prems(2) show ?case by auto
qed

text \<open>
  Claim C1. For every configured source list, a run of \<open>fetch_fresh_data\<close> calls the
  sources in priority order (the ranks of its events increase strictly: each method of
  each source is called at most once, \<open>is_available\<close> before \<open>fetch_data\<close>, sources by
  position); a source whose \<open>is_available\<close> raised or returned false never has its
  \<open>fetch_data\<close> called; and a non-empty result is what the last call of the run, the
  \<open>fetch_data\<close> of some source \<open>i\<close>, returned, is tagged with that source's name, is
  the first non-empty fetch result of the run, comes after every source up to \<open>i\<close> was
  probed, and no source after \<open>i\<close> is invoked. Conversely a non-empty frame returned by
  any \<open>fetch_data\<close> call of the run is the result, and that call is the last of the run.
  The trace is a true record of the run: its events are the calls really made on the
  configured sources, each in the world the calls before it left, with their real
  answers, and the world returned is the one the last call leaves. A source whose
  \<open>is_available\<close> returned true has its \<open>fetch_data\<close> called; a source is left unprobed
  only when an earlier source delivered a non-empty frame; and when no call delivered
  one, the result is the empty frame tagged \<open>"No source available"\<close>. The trace starts
  with the entry of the coordinator.
\<close>

theorem fetch_fresh_data_first_nonempty:
  assumes "fetch_fresh_data dm w = ((data, label), w', tr)"
  shows "sorted_wrt (<) (map rank tr)
     \<and> (\<forall>i a. IsAvailable i a \<in> set tr \<and> a \<noteq> Returns True \<longrightarrow> (\<forall>x. FetchData i x \<notin> set tr))
     \<and> (data \<noteq> [] \<longrightarrow>
          (\<exists>i<length (fetchers dm).
              last tr = FetchData i (Returns data) \<and> label = name (fetchers dm ! i)
            \<and> (\<forall>k d. FetchData k (Returns d) \<in> set (butlast tr) \<longrightarrow> d = [])
            \<and> (\<forall>k\<le>i. \<exists>a. IsAvailable k a \<in> set tr)
            \<and> (\<forall>e\<in>set tr. \<forall>k. source_of e = Some k \<longrightarrow> k \<le> i)))
     \<and> (\<forall>j d. FetchData j (Returns d) \<in> set tr \<and> d \<noteq> [] \<longrightarrow>
            data = d \<and> last tr = FetchData j (Returns d))
     \<and> replay (fetchers dm) w tr = Some w'
     \<and> (\<forall>e\<in>set tr. \<forall>k. source_of e = Some k \<longrightarrow> k < length (fetchers dm))
     \<and> (\<forall>k. IsAvailable k (Returns True) \<in> set tr \<longrightarrow> (\<exists>x. FetchData k x \<in> set tr))
     \<and> (\<forall>k<length (fetchers dm).
            (\<exists>a. IsAvailable k a \<in> set tr)
            \<or> (\<exists>j<k. \<exists>d. d \<noteq> [] \<and> FetchData j (Returns d) \<in> set tr))
     \<and> ((\<forall>j d. FetchData j (Returns d) \<in> set tr \<longrightarrow> d = []) \<longrightarrow>
            data = [] \<and> label = ''No source available'')
     \<and> take 1 tr = [Attempt]"
proof -
  obtain evs where run: "try_fetchers 0 (fetchers dm) w = ((data, label), w', evs)"
    and tr: "tr = Attempt # evs"
    using assms by (auto simp: fetch_fresh_data_def split: prod.splits)
  have lower: "\<And>e. e \<in> set evs \<Longrightarrow> 1 \<le> rank e"
    using try_fetchers_rank_lower[OF run] by fastforce
  have sorted: "sorted_wrt (<) (map rank tr)"
    using try_fetchers_sorted[OF run] lower tr by fastforce
  have skip: "\<forall>i a. IsAvailable i a \<in> set tr \<and> a \<noteq> Returns True \<longrightarrow> (\<forall>x. FetchData i x \<notin> set tr)"
  proof (intro allI impI notI)
    fix i a x
    assume a: "IsAvailable i a \<in> set tr \<and> a \<noteq> Returns True" and f: "FetchData i x \<in> set tr"
    from f tr have "IsAvailable i (Returns True) \<in> set tr"
      using try_fetchers_fetch_after_available[OF run] by auto
    moreover from sorted have "inj_on rank (set tr)"
      by (metis distinct_map strict_sorted_iff sorted_wrt_map linorder_class.strict_sorted_iff)
    ultimately have "IsAvailable i a = IsAvailable i (Returns True)"
      using a by (intro inj_onD[of rank "set tr"]) simp_all
    with a show False by simp
  qed
  have found: "data \<noteq> [] \<longrightarrow>
          (\<exists>i<length (fetchers dm).
              last tr = FetchData i (Returns data) \<and> label = name (fetchers dm ! i)
            \<and> (\<forall>k d. FetchData k (Returns d) \<in> set (butlast tr) \<longrightarrow> d = [])
            \<and> (\<forall>k\<le>i. \<exists>a. IsAvailable k a \<in> set tr)
            \<and> (\<forall>e\<in>set tr. \<forall>k. source_of e = Some k \<longrightarrow> k \<le> i))"
  proof
    assume ne: "data \<noteq> []"
    from try_fetchers_success[OF run ne]
    obtain j where j: "j < length (fetchers dm)" "evs \<noteq> []"
        "last evs = FetchData j (Returns data)" "label = name (fetchers dm ! j)"
        "\<forall>k d. FetchData k (Returns d) \<in> set (butlast evs) \<longrightarrow> d = []"
        "\<forall>k\<le>j. \<exists>a. IsAvailable k a \<in> set evs"
      by auto
    have top: "\<forall>e\<in>set tr. rank e \<le> 2 * j + 2"
    proof
      fix e assume e: "e \<in> set tr"
      have "tr = butlast tr @ [last tr]" using tr by simp
      with sorted have "sorted_wrt (<) (map rank (butlast tr @ [last tr]))" by simp
      then have "\<forall>x\<in>set (butlast tr). rank x < rank (last tr)"
        by (simp add: sorted_wrt_append)
      moreover have "e \<in> set (butlast tr) \<or> e = last tr"
        using e tr by (metis Un_iff append_butlast_last_id empty_iff empty_set list.simps(3) set_ConsD set_append)
      moreover have "rank (last tr) = 2 * j + 2" using j tr by simp
      ultimately show "rank e \<le> 2 * j + 2" by auto
    qed
    have later: "\<forall>e\<in>set tr. \<forall>k. source_of e = Some k \<longrightarrow> k \<le> j"
    proof (intro ballI allI impI)
      fix e k assume "e \<in> set tr" "source_of e = Some k"
      with top show "k \<le> j" by (cases e) force+
    qed
    from j tr later show "\<exists>i<length (fetchers dm).
              last tr = FetchData i (Returns data) \<and> label = name (fetchers dm ! i)
            \<and> (\<forall>k d. FetchData k (Returns d) \<in> set (butlast tr) \<longrightarrow> d = [])
            \<and> (\<forall>k\<le>i. \<exists>a. IsAvailable k a \<in> set tr)
            \<and> (\<forall>e\<in>set tr. \<forall>k. source_of e = Some k \<longrightarrow> k \<le> i)"
      by (intro exI[of _ j]) auto
  qed
  have first: "\<forall>j d. FetchData j (Returns d) \<in> set tr \<and> d \<noteq> [] \<longrightarrow>
            data = d \<and> last tr = FetchData j (Returns d)"
  proof (intro allI impI)
    fix j d
    assume ev: "FetchData j (Returns d) \<in> set tr \<and> d \<noteq> []"
    then have in_evs: "FetchData j (Returns d) \<in> set evs" using tr by simp
    have ne: "data \<noteq> []"
    proof
      assume "data = []"
      from try_fetchers_failure[OF run this] in_evs ev show False by blast
    qed
    from try_fetchers_success[OF run ne]
    obtain i where i: "evs \<noteq> []" "last evs = FetchData i (Returns data)"
        "\<forall>k d. FetchData k (Returns d) \<in> set (butlast evs) \<longrightarrow> d = []"
      by auto
    from i(1) have "set (butlast evs @ [last evs]) = set evs" by simp
    then have "set evs = set (butlast evs) \<union> {last evs}" by auto
    with in_evs i(3) ev have "FetchData j (Returns d) = last evs" by blast
    with i(1,2) tr show "data = d \<and> last tr = FetchData j (Returns d)" by simp
  qed
  have true_record: "replay (fetchers dm) w tr = Some w'"
    using try_fetchers_replay[OF _ run, of "fetchers dm"] tr by simp
  have in_range: "\<forall>e\<in>set tr. \<forall>k. source_of e = Some k \<longrightarrow> k < length (fetchers dm)"
  proof (intro ballI allI impI)
    fix e k assume e: "e \<in> set tr" and k: "source_of e = Some k"
    with tr have "e \<in> set evs" by auto
    from try_fetchers_in_range[OF run this k] show "k < length (fetchers dm)" by simp
  qed
  have fetched: "\<forall>k. IsAvailable k (Returns True) \<in> set tr \<longrightarrow> (\<exists>x. FetchData k x \<in> set tr)"
  proof (intro allI impI)
    fix k assume "IsAvailable k (Returns True) \<in> set tr"
    with tr have "IsAvailable k (Returns True) \<in> set evs" by simp
    from try_fetchers_available_fetched[OF run this] tr
    show "\<exists>x. FetchData k x \<in> set tr" by auto
  qed
  have probed: "\<forall>k<length (fetchers dm).
            (\<exists>a. IsAvailable k a \<in> set tr)
            \<or> (\<exists>j<k. \<exists>d. d \<noteq> [] \<and> FetchData j (Returns d) \<in> set tr)"
  proof (intro allI impI)
    fix k assume k: "k < length (fetchers dm)"
    show "(\<exists>a. IsAvailable k a \<in> set tr)
            \<or> (\<exists>j<k. \<exists>d. d \<noteq> [] \<and> FetchData j (Returns d) \<in> set tr)"
    proof (cases "data = []")
      case True
      from try_fetchers_failure[OF run True] k have "\<exists>a. IsAvailable k a \<in> set evs" by auto
      with tr show ?thesis by auto
    next
      case False
      from try_fetchers_success[OF run False]
      obtain j where j: "evs \<noteq> []" "last evs = FetchData j (Returns data)"
          "\<forall>k\<le>j. \<exists>a. IsAvailable k a \<in> set evs"
        by auto
      show ?thesis
      proof (cases "k \<le> j")
        case True
        with j(3) have "\<exists>a. IsAvailable k a \<in> set evs" by blast
        with tr show ?thesis by auto
      next
        case late: False
        from j(1,2) have "FetchData j (Returns data) \<in> set evs"
          using last_in_set[of evs] by simp
        with tr have "FetchData j (Returns data) \<in> set tr" by simp
        moreover from late have "j < k" by simp
        ultimately show ?thesis using False by blast
      qed
    qed
  qed
  have none: "(\<forall>j d. FetchData j (Returns d) \<in> set tr \<longrightarrow> d = []) \<longrightarrow>
            data = [] \<and> label = ''No source available''"
  proof
    assume quiet: "\<forall>j d. FetchData j (Returns d) \<in> set tr \<longrightarrow> d = []"
    have empty: "data = []"
    proof (rule ccontr)
      assume ne: "data \<noteq> []"
      from try_fetchers_success[OF run ne]
      obtain j where "evs \<noteq> []" "last evs = FetchData j (Returns data)" by auto
      then have "FetchData j (Returns data) \<in> set tr"
        using tr last_in_set[of evs] by auto
      with quiet ne show False by blast
    qed
    with try_fetchers_failure[OF run empty]
    show "data = [] \<and> label = ''No source available''" by simp
  qed
  show ?thesis
    apply (intro conjI)
             apply (rule sorted)
            apply (rule skip)
           apply (rule found)
          apply (rule first)
         apply (rule true_record)
        apply (rule in_range)
       apply (rule fetched)
      apply (rule probed)
     apply (rule none)
    apply (simp add: tr)
    done
qed

theorem fetch_fresh_data_first_nonempty_witness:
  "fetch_fresh_data (DataManager_init example_sources) 0 =
     (([sample_trade], ''good''), 6000000,
      [Attempt, IsAvailable 0 Raises, IsAvailable 1 (Returns False),
       IsAvailable 2 (Returns True), FetchData 2 (Returns []),
       IsAvailable 3 (Returns True), FetchData 3 (Returns [sample_trade])])
   \<and> (\<exists>i<length (fetchers (DataManager_init example_sources)).
         ''good'' = name (fetchers (DataManager_init example_sources) ! i) \<and> i = 3)"
proof -
  have run: "fetch_fresh_data (DataManager_init example_sources) 0 =
     (([sample_trade], ''good''), 6000000,
      [Attempt, IsAvailable 0 Raises, IsAvailable 1 (Returns False),
       IsAvailable 2 (Returns True), FetchData 2 (Returns []),
       IsAvailable 3 (Returns True), FetchData 3 (Returns [sample_trade])])"
    by (simp add: fetch_fresh_data_def try_fetcher_def example_source_defs)
  from fetch_fresh_data_first_nonempty[OF run] show ?thesis
    using run by auto
qed


text \<open>
  Claim C4. If in a run of \<open>fetch_fresh_data\<close> no source's \<open>fetch_data\<close> returned a
  non-empty frame (each source was unavailable, raised, or returned an empty result),
  the result is the empty frame tagged \<open>"No source available"\<close>, after every
  configured source was probed. The function has no raising branch: every exception of
  a source is caught in the loop.
\<close>

theorem fetch_fresh_data_no_source:
  assumes "fetch_fresh_data dm w = ((data, label), w', tr)"
    and "\<forall>i d. FetchData i (Returns d) \<in> set tr \<longrightarrow> d = []"
  shows "data = [] \<and> label = ''No source available''
     \<and> (\<forall>k<length (fetchers dm). \<exists>a. IsAvailable k a \<in> set tr)"
proof -
  obtain evs where run: "try_fetchers 0 (fetchers dm) w = ((data, label), w', evs)"
    and tr: "tr = Attempt # evs"
    using assms(1) by (auto simp: fetch_fresh_data_def split: prod.splits)
  have empty: "data = []"
  proof (rule ccontr)
    assume ne: "data \<noteq> []"
    from try_fetchers_success[OF run ne]
    obtain j where "evs \<noteq> []" "last evs = FetchData j (Returns data)" by auto
    then have "FetchData j (Returns data) \<in> set tr"
      using tr last_in_set[of evs] by auto
    with assms(2) ne show False by blast
  qed
  from try_fetchers_failure[OF run empty] tr empty show ?thesis by auto
qed

theorem fetch_fresh_data_no_source_witness:
  "fetch_fresh_data (DataManager_init failing_sources) 0 =
     (([], ''No source available''), 4000000,
      [Attempt, IsAvailable 0 Raises, IsAvailable 1 (Returns False),
       IsAvailable 2 (Returns True), FetchData 2 (Returns [])])"
proof -
  have run: "fetch_fresh_data (DataManager_init failing_sources) 0 =
     (([], ''No source available''), 4000000,
      [Attempt, IsAvailable 0 Raises, IsAvailable 1 (Returns False),
       IsAvailable 2 (Returns True), FetchData 2 (Returns [])])"
    by (simp add: fetch_fresh_data_def try_fetcher_def example_source_defs)
  have quiet: "\<forall>i d. FetchData i (Returns d) \<in> set
      [Attempt, IsAvailable 0 Raises, IsAvailable 1 (Returns False),
       IsAvailable 2 (Returns True), FetchData 2 (Returns [])] \<longrightarrow> d = []"
    by auto
  from fetch_fresh_data_no_source[OF run quiet] run show ?thesis by simp
qed


section \<open>The company name lookup\<close>

text \<open>
  One call either leaves the object and the world as they are (no ticker, or a cached
  one), or requests the URL of a ticker that was not cached and caches the name it
  returns.
\<close>

lemma lookup_url_inject: "lookup_url a = lookup_url b \<Longrightarrow> a = b"
  by (simp add: lookup_url_def)

lemma get_company_name_step:
  assumes "get_company_name env tkr lk w = (n, lk1, w1)"
  shows "(lk1 = lk \<and> w1 = w \<and>
            (tkr = None \<or> tkr = Some [] \<or> (\<exists>s. tkr = Some s \<and> cache lk (strip (upper s)) = Some n)))
       \<or> (\<exists>s. tkr = Some s \<and> s \<noteq> [] \<and> cache lk (strip (upper s)) = None
              \<and> session_log lk1 = session_log lk @ [lookup_url (strip (upper s))]
              \<and> cache lk1 = (cache lk)(strip (upper s) \<mapsto> n))"
proof (cases "tkr = None \<or> tkr = Some []")
  case True
  with assms show ?thesis by (auto simp: get_company_name_def)
next
  case False
  then obtain s where s: "tkr = Some s" "s \<noteq> []" by (cases tkr) auto
  show ?thesis
  proof (cases "cache lk (strip (upper s))")
    case (Some m)
    with assms s show ?thesis by (auto simp: get_company_name_def Let_def)
  next
    case None
    with assms s show ?thesis
      by (auto simp: get_company_name_def Let_def get_default_def
               split: prod.splits outcome.splits option.splits)
  qed
qed


lemma get_company_names_requests:
  "get_company_names env ts lk w = (ns, lk', w') \<Longrightarrow>
     \<exists>ext. session_log lk' = session_log lk @ ext
        \<and> count_list ext (lookup_url t) \<le> (if cache lk t = None then 1 else 0)"
proof (induction ts arbitrary: lk w ns lk' w')
  case Nil
  then show ?case by simp
next
  case (Cons tkr ts)
  obtain n lk1 w1 where one: "get_company_name env tkr lk w = (n, lk1, w1)"
    by (cases "get_company_name env tkr lk w") auto
  obtain ns2 lk2 w2 where rest: "get_company_names env ts lk1 w1 = (ns2, lk2, w2)"
    by (cases "get_company_names env ts lk1 w1") auto
  from Cons.prems one rest have fin: "lk' = lk2" by simp
  from Cons.IH[OF rest] obtain ext where
    ext: "session_log lk2 = session_log lk1 @ ext"
         "count_list ext (lookup_url t) \<le> (if cache lk1 t = None then 1 else 0)"
    by blast
  from get_company_name_step[OF one] show ?case
  proof
    assume "lk1 = lk \<and> w1 = w \<and>
      (tkr = None \<or> tkr = Some [] \<or> (\<exists>s. tkr = Some s \<and> cache lk (strip (upper s)) = Some n))"
    with ext fin show ?thesis by auto
  next
    assume "\<exists>s. tkr = Some s \<and> s \<noteq> [] \<and> cache lk (strip (upper s)) = None
              \<and> session_log lk1 = session_log lk @ [lookup_url (strip (upper s))]
              \<and> cache lk1 = (cache lk)(strip (upper s) \<mapsto> n)"
    then obtain s where s: "cache lk (strip (upper s)) = None"
        "session_log lk1 = session_log lk @ [lookup_url (strip (upper s))]"
        "cache lk1 = (cache lk)(strip (upper s) \<mapsto> n)"
      by blast
    have log: "session_log lk' = session_log lk @ (lookup_url (strip (upper s)) # ext)"
      using ext(1) s(2) fin by simp
    have "count_list (lookup_url (strip (upper s)) # ext) (lookup_url t)
            \<le> (if cache lk t = None then 1 else 0)"
    proof (cases "strip (upper s) = t")
      case True
      with ext(2) s show ?thesis by simp
    next
      case False
      then have "lookup_url (strip (upper s)) \<noteq> lookup_url t"
        using lookup_url_inject by blast
      with ext(2) s(3) False show ?thesis by simp
    qed
    with log show ?thesis by blast
  qed
qed

lemma get_company_names_same_name:
  "get_company_names env ts lk w = (ns, lk', w') \<Longrightarrow> s \<noteq> [] \<Longrightarrow>
     length ns = length ts
     \<and> (\<exists>n. (\<forall>i<length ts. ts ! i = Some s \<longrightarrow> ns ! i = n \<and> cache lk' (strip (upper s)) = Some n)
            \<and> (\<forall>m. cache lk (strip (upper s)) = Some m \<longrightarrow> n = m \<and> cache lk' (strip (upper s)) = Some m))"
proof (induction ts arbitrary: lk w ns lk' w')
  case Nil
  then have "lk' = lk" "ns = []" by simp_all
  then show ?case by (cases "cache lk (strip (upper s))") auto
next
  case (Cons tkr ts)
  let ?t = "strip (upper s)"
  obtain n0 lk1 w1 where one: "get_company_name env tkr lk w = (n0, lk1, w1)"
    by (cases "get_company_name env tkr lk w") auto
  obtain ns2 lk2 w2 where rest: "get_company_names env ts lk1 w1 = (ns2, lk2, w2)"
    by (cases "get_company_names env ts lk1 w1") auto
  from Cons.prems one rest have fin: "lk' = lk2" "ns = n0 # ns2" by simp_all
  from Cons.IH[OF rest Cons.prems(2)] obtain n where
    ih: "length ns2 = length ts"
        "\<forall>i<length ts. ts ! i = Some s \<longrightarrow> ns2 ! i = n \<and> cache lk2 ?t = Some n"
        "\<forall>m. cache lk1 ?t = Some m \<longrightarrow> n = m \<and> cache lk2 ?t = Some m"
    by blast
  have mono: "\<forall>m. cache lk ?t = Some m \<longrightarrow> cache lk1 ?t = Some m"
    using get_company_name_step[OF one] by auto
  show ?case
  proof (cases "tkr = Some s")
    case True
    with get_company_name_step[OF one] Cons.prems(2)
    have now: "cache lk1 ?t = Some n0" and hit: "\<forall>m. cache lk ?t = Some m \<longrightarrow> n0 = m"
      by auto
    with ih(3) have eq: "n = n0" "cache lk2 ?t = Some n0" by auto
    have "\<forall>i<length (tkr # ts). (tkr # ts) ! i = Some s \<longrightarrow>
            ns ! i = n0 \<and> cache lk' ?t = Some n0"
    proof (intro allI impI)
      fix i assume "i < length (tkr # ts)" "(tkr # ts) ! i = Some s"
      then show "ns ! i = n0 \<and> cache lk' ?t = Some n0"
        using ih(2) eq fin by (cases i) auto
    qed
    moreover have "\<forall>m. cache lk ?t = Some m \<longrightarrow> n0 = m \<and> cache lk' ?t = Some m"
      using hit eq fin by auto
    ultimately show ?thesis using ih(1) fin by auto
  next
    case False
    have "\<forall>i<length (tkr # ts). (tkr # ts) ! i = Some s \<longrightarrow>
            ns ! i = n \<and> cache lk' ?t = Some n"
    proof (intro allI impI)
      fix i assume "i < length (tkr # ts)" "(tkr # ts) ! i = Some s"
      then show "ns ! i = n \<and> cache lk' ?t = Some n"
        using ih(2) False fin by (cases i) auto
    qed
    moreover have "\<forall>m. cache lk ?t = Some m \<longrightarrow> n = m \<and> cache lk' ?t = Some m"
      using mono ih(3) fin by auto
    ultimately show ?thesis using ih(1) fin by auto
  qed
qed

text \<open>
  Claim C8. For every non-empty ticker \<open>s\<close> and every sequence of calls on one lookup
  object (for this ticker and any others, from any state of the object), at most one
  request for the URL of the normalised ticker is issued during the sequence, and all
  calls for \<open>s\<close> return the same name, the one the cache holds for the normalised ticker
  afterwards, whatever the first call found (a match, the first candidate or the
  placeholder).
\<close>

theorem get_company_name_single_lookup:
  assumes "s \<noteq> []" and "get_company_names env ts lk w = (ns, lk', w')"
  shows "length ns = length ts
     \<and> count_list (drop (length (session_log lk)) (session_log lk'))
          (lookup_url (strip (upper s))) \<le> 1
     \<and> (\<forall>i j. i < length ts \<and> j < length ts \<and> ts ! i = Some s \<and> ts ! j = Some s
            \<longrightarrow> ns ! i = ns ! j \<and> cache lk' (strip (upper s)) = Some (ns ! i))"
proof -
  from get_company_names_requests[OF assms(2), of "strip (upper s)"]
  obtain ext where "session_log lk' = session_log lk @ ext"
      "count_list ext (lookup_url (strip (upper s))) \<le> 1"
    by (auto split: if_splits)
  then have "count_list (drop (length (session_log lk)) (session_log lk'))
          (lookup_url (strip (upper s))) \<le> 1"
    by simp
  moreover from get_company_names_same_name[OF assms(2,1)]
  have "length ns = length ts"
    "\<forall>i j. i < length ts \<and> j < length ts \<and> ts ! i = Some s \<and> ts ! j = Some s
            \<longrightarrow> ns ! i = ns ! j \<and> cache lk' (strip (upper s)) = Some (ns ! i)"
    by auto
  ultimately show ?thesis by blast
qed

theorem get_company_name_single_lookup_witness:
  "''nvda'' \<noteq> []
   \<and> fst (get_company_names example_env example_calls CompanyNameLookup_init 0) =
       [''NVIDIA Corporation'', ''Company for MSFT'', ''NVIDIA Corporation'',
        ''Company for MSFT'', ''Unknown Company'', ''NVIDIA Corporation'', ''Company for AAPL'']
   \<and> session_log (fst (snd (get_company_names example_env example_calls
         CompanyNameLookup_init 0))) =
       [lookup_url ''NVDA'', lookup_url ''MSFT'', lookup_url ''AAPL'']
   \<and> count_list (session_log (fst (snd (get_company_names example_env example_calls
         CompanyNameLookup_init 0)))) (lookup_url (strip (upper ''nvda''))) \<le> 1"
proof -
  obtain ns lk' w' where
    run: "get_company_names example_env example_calls CompanyNameLookup_init 0 = (ns, lk', w')"
    by (cases "get_company_names example_env example_calls CompanyNameLookup_init 0") auto
  have ne: "''nvda'' \<noteq> []" by simp
  have names: "fst (get_company_names example_env example_calls CompanyNameLookup_init 0) =
       [''NVIDIA Corporation'', ''Company for MSFT'', ''NVIDIA Corporation'',
        ''Company for MSFT'', ''Unknown Company'', ''NVIDIA Corporation'', ''Company for AAPL'']"
    by code_simp
  have log: "session_log (fst (snd (get_company_names example_env example_calls
         CompanyNameLookup_init 0))) =
       [lookup_url ''NVDA'', lookup_url ''MSFT'', lookup_url ''AAPL'']"
    by code_simp
  from get_company_name_single_lookup[OF ne run]
  have "count_list (drop (length (session_log CompanyNameLookup_init)) (session_log lk'))
          (lookup_url (strip (upper ''nvda''))) \<le> 1"
    by blast
  then have "count_list (session_log lk') (lookup_url (strip (upper ''nvda''))) \<le> 1"
    by (simp add: CompanyNameLookup_init_def)
  with ne names log run show ?thesis by simp
qed


text \<open>
  Claim C9. For \<open>None\<close> and for the empty string, \<open>get_company_name\<close> returns
  \<open>"Unknown Company"\<close> and leaves the object (its cache and the requests of its session)
  and the world as they were: no request is issued.
\<close>

theorem get_company_name_empty_ticker:
  "get_company_name env None lk w = (''Unknown Company'', lk, w)
   \<and> get_company_name env (Some []) lk w = (''Unknown Company'', lk, w)"
  by (simp add: get_company_name_def)



section \<open>The cache manager\<close>

lemma manager_inv_init: "manager_inv (DataManager_init fs)"
  by (simp add: manager_inv_def DataManager_init_def)

lemma fetch_fresh_data_trace:
  "fetch_fresh_data dm w = (r, w1, tr) \<Longrightarrow> Attempt \<in> set tr"
  by (auto simp: fetch_fresh_data_def split: prod.splits)

lemma manager_inv_get_data:
  "manager_inv dm \<Longrightarrow> get_data env force_refresh dm w = (r, dm', w', tr) \<Longrightarrow> manager_inv dm'"
  by (auto simp: get_data_def manager_inv_def split: if_splits prod.splits option.splits)

lemma manager_inv_get_cache_status:
  "manager_inv dm \<Longrightarrow> manager_inv (snd (get_cache_status env dm w))"
  by (simp add: get_cache_status_def Let_def split: option.splits)

text \<open>
  Claim C2. In every state the manager can be in, \<open>get_data\<close> calls the coordinator if
  and only if \<open>force_refresh\<close> is true, or no successful fetch has occurred yet, or the
  clock is more than thirty minutes past the last successful fetch. In every other case
  it returns the cached frame with the label \<open>"Cached data (last updated: t)"\<close> for the
  time \<open>t\<close> of that fetch, calls no method of any source, and leaves the manager and the
  world as they were. When it does call the coordinator, its trace and the world it
  returns are those of \<open>fetch_fresh_data\<close> run on the manager in the world of the call: a
  non-empty result is returned as it is and cached with the time read after the fetch,
  an empty one leaves the manager as it was and is answered from the cache, or with the
  coordinator's empty result when nothing is cached.
\<close>

theorem get_data_refresh_iff:
  assumes "manager_inv dm" and "get_data env force_refresh dm w = (r, dm', w', tr)"
  shows "(Attempt \<in> set tr) =
           (force_refresh \<or> last_fetch_time dm = None
            \<or> (\<exists>t. last_fetch_time dm = Some t \<and> now env w - t > timedelta_minutes 30))
     \<and> (Attempt \<notin> set tr \<longrightarrow>
          (\<exists>c t. cached_data dm = Some c \<and> last_fetch_time dm = Some t
             \<and> r = (c, ''Cached data (last updated: '' @ str_datetime env t @ '')''))
          \<and> dm' = dm \<and> w' = w \<and> tr = [])
     \<and> (Attempt \<in> set tr \<longrightarrow>
          tr = snd (snd (fetch_fresh_data dm w)) \<and> w' = fst (snd (fetch_fresh_data dm w))
          \<and> (fst (fst (fetch_fresh_data dm w)) \<noteq> [] \<longrightarrow>
                r = fst (fetch_fresh_data dm w)
                \<and> dm' = dm\<lparr>cached_data := Some (fst (fst (fetch_fresh_data dm w))),
                            last_fetch_time := Some (now env w')\<rparr>)
          \<and> (fst (fst (fetch_fresh_data dm w)) = [] \<longrightarrow>
                dm' = dm
                \<and> r = (case cached_data dm of
                         Some c \<Rightarrow> (c, cached_label env (last_fetch_time dm))
                       | None \<Rightarrow> ([], snd (fst (fetch_fresh_data dm w))))))"
proof (cases "force_refresh \<or>
         (case last_fetch_time dm of
            None \<Rightarrow> True
          | Some t \<Rightarrow> cached_data dm = None \<or> now env w - t > cache_duration dm)")
  case True
  obtain data source w1 tr1 where ff: "fetch_fresh_data dm w = ((data, source), w1, tr1)"
    by (cases "fetch_fresh_data dm w") auto
  from True assms(2) ff have run: "tr = tr1" "w' = w1"
    by (auto simp: get_data_def split: if_splits prod.splits option.splits)
  from True assms(2) ff have good: "data \<noteq> [] \<Longrightarrow>
      r = (data, source) \<and> dm' = dm\<lparr>cached_data := Some data, last_fetch_time := Some (now env w1)\<rparr>"
    by (auto simp: get_data_def)
  from True assms(2) ff have bad: "data = [] \<Longrightarrow>
      dm' = dm \<and> r = (case cached_data dm of
                         Some c \<Rightarrow> (c, cached_label env (last_fetch_time dm))
                       | None \<Rightarrow> ([], source))"
    by (auto simp: get_data_def split: option.splits)
  from run fetch_fresh_data_trace[OF ff] have att: "Attempt \<in> set tr" by simp
  from True assms(1) have cond: "force_refresh \<or> last_fetch_time dm = None
            \<or> (\<exists>t. last_fetch_time dm = Some t \<and> now env w - t > timedelta_minutes 30)"
    by (auto simp: manager_inv_def split: option.splits)
  have tied: "tr = snd (snd (fetch_fresh_data dm w)) \<and> w' = fst (snd (fetch_fresh_data dm w))
          \<and> (fst (fst (fetch_fresh_data dm w)) \<noteq> [] \<longrightarrow>
                r = fst (fetch_fresh_data dm w)
                \<and> dm' = dm\<lparr>cached_data := Some (fst (fst (fetch_fresh_data dm w))),
                            last_fetch_time := Some (now env w')\<rparr>)
          \<and> (fst (fst (fetch_fresh_data dm w)) = [] \<longrightarrow>
                dm' = dm
                \<and> r = (case cached_data dm of
                         Some c \<Rightarrow> (c, cached_label env (last_fetch_time dm))
                       | None \<Rightarrow> ([], snd (fst (fetch_fresh_data dm w)))))"
    using run good bad by (auto simp: ff split: option.splits)
  from att cond tied show ?thesis by simp
next
  case False
  with assms(2) have res: "tr = []" "dm' = dm" "w' = w"
      "r = (case cached_data dm of Some c \<Rightarrow> c | None \<Rightarrow> [], cached_label env (last_fetch_time dm))"
    by (auto simp: get_data_def)
  from False assms(1) obtain c t where ct: "cached_data dm = Some c" "last_fetch_time dm = Some t"
      "\<not> now env w - t > timedelta_minutes 30" "\<not> force_refresh"
    by (auto simp: manager_inv_def split: option.splits)
  with res show ?thesis by (auto simp: cached_label_def)
qed

theorem get_data_refresh_iff_witness:
  "manager_inv fresh_manager
   \<and> get_data example_env False fresh_manager 60000000 =
       (([sample_trade], ''Cached data (last updated: 0000000000000000)''),
        fresh_manager, 60000000, [])
   \<and> Attempt \<in> set (snd (snd (snd (get_data example_env False fresh_manager 1800000001))))
   \<and> manager_inv (DataManager_init example_sources)
   \<and> get_data example_env False (DataManager_init example_sources) 0 =
       (([sample_trade], ''good''),
        (DataManager_init example_sources)
          \<lparr>cached_data := Some [sample_trade], last_fetch_time := Some 6000000\<rparr>,
        6000000,
        [Attempt, IsAvailable 0 Raises, IsAvailable 1 (Returns False),
         IsAvailable 2 (Returns True), FetchData 2 (Returns []),
         IsAvailable 3 (Returns True), FetchData 3 (Returns [sample_trade])])"
proof -
  have inv: "manager_inv fresh_manager"
    by (simp add: manager_inv_def fresh_manager_def)
  have lab: "cached_label example_env (Some 0) = ''Cached data (last updated: 0000000000000000)''"
    by code_simp
  have run: "get_data example_env False fresh_manager 60000000 =
       (([sample_trade], ''Cached data (last updated: 0000000000000000)''),
        fresh_manager, 60000000, [])"
    unfolding lab[symmetric]
    by (simp add: get_data_def fresh_manager_def example_env_def timedelta_minutes_def)
  obtain r dm' w' tr where
    late: "get_data example_env False fresh_manager 1800000001 = (r, dm', w', tr)"
    by (cases "get_data example_env False fresh_manager 1800000001") auto
  have "\<exists>t. last_fetch_time fresh_manager = Some t
          \<and> now example_env 1800000001 - t > timedelta_minutes 30"
    by (simp add: fresh_manager_def example_env_def timedelta_minutes_def)
  with get_data_refresh_iff[OF inv late] have att: "Attempt \<in> set tr" by blast
  have inv0: "manager_inv (DataManager_init example_sources)"
    by (simp add: manager_inv_def DataManager_init_def)
  have ff: "fetch_fresh_data (DataManager_init example_sources) 0 =
     (([sample_trade], ''good''), 6000000,
      [Attempt, IsAvailable 0 Raises, IsAvailable 1 (Returns False),
       IsAvailable 2 (Returns True), FetchData 2 (Returns []),
       IsAvailable 3 (Returns True), FetchData 3 (Returns [sample_trade])])"
    by (simp add: fetch_fresh_data_def try_fetcher_def example_source_defs)
  obtain r0 dm0 w0 tr0 where
    first: "get_data example_env False (DataManager_init example_sources) 0 = (r0, dm0, w0, tr0)"
    by (cases "get_data example_env False (DataManager_init example_sources) 0") auto
  have never: "last_fetch_time (DataManager_init example_sources) = None"
    by (simp add: DataManager_init_def)
  from get_data_refresh_iff[OF inv0 first] never
  have tied: "tr0 = snd (snd (fetch_fresh_data (DataManager_init example_sources) 0))"
      "w0 = fst (snd (fetch_fresh_data (DataManager_init example_sources) 0))"
      "r0 = fst (fetch_fresh_data (DataManager_init example_sources) 0)"
      "dm0 = (DataManager_init example_sources)
          \<lparr>cached_data := Some (fst (fst (fetch_fresh_data (DataManager_init example_sources) 0))),
           last_fetch_time := Some (now example_env w0)\<rparr>"
    by (simp_all add: ff)
  then have fresh: "get_data example_env False (DataManager_init example_sources) 0 =
       (([sample_trade], ''good''),
        (DataManager_init example_sources)
          \<lparr>cached_data := Some [sample_trade], last_fetch_time := Some 6000000\<rparr>,
        6000000,
        [Attempt, IsAvailable 0 Raises, IsAvailable 1 (Returns False),
         IsAvailable 2 (Returns True), FetchData 2 (Returns []),
         IsAvailable 3 (Returns True), FetchData 3 (Returns [sample_trade])])"
    using first by (simp add: ff example_env_def)
  from inv run late att inv0 fresh show ?thesis by simp
qed

text \<open>
  Claim C3. When \<open>get_data\<close> attempts a refresh (forced or not), the coordinator returns
  an empty frame and a frame \<open>c\<close> fetched at time \<open>t\<close> is cached, \<open>get_data\<close> returns \<open>c\<close>
  with the label \<open>"Cached data (last updated: t)"\<close> and leaves the manager, with its
  cached frame and its fetch time, as it was.
\<close>

theorem get_data_failed_refresh_serves_cache:
  assumes "get_data env force_refresh dm w = (r, dm', w', tr)"
    and "Attempt \<in> set tr"
    and "fst (fst (fetch_fresh_data dm w)) = []"
    and "cached_data dm = Some c" and "last_fetch_time dm = Some t"
  shows "r = (c, ''Cached data (last updated: '' @ str_datetime env t @ '')'')
     \<and> dm' = dm \<and> cached_data dm' = Some c \<and> last_fetch_time dm' = Some t"
proof -
  have cond: "force_refresh \<or>
         (case last_fetch_time dm of
            None \<Rightarrow> True
          | Some t \<Rightarrow> cached_data dm = None \<or> now env w - t > cache_duration dm)"
  proof (rule ccontr)
    assume "\<not> ?thesis"
    with assms(1) have "tr = []" by (auto simp: get_data_def)
    with assms(2) show False by simp
  qed
  obtain label w1 tr1 where ff: "fetch_fresh_data dm w = (([], label), w1, tr1)"
    using assms(3) by (cases "fetch_fresh_data dm w") auto
  from assms(1) cond ff assms(4,5) show ?thesis
    by (auto simp: get_data_def cached_label_def)
qed

theorem get_data_failed_refresh_serves_cache_witness:
  "get_data example_env True stale_manager 60000000 =
       (([sample_trade], ''Cached data (last updated: 0000000000000000)''),
        stale_manager, 64000000,
        [Attempt, IsAvailable 0 Raises, IsAvailable 1 (Returns False),
         IsAvailable 2 (Returns True), FetchData 2 (Returns [])])
   \<and> get_data example_env False stale_manager 1800000001 =
       (([sample_trade], ''Cached data (last updated: 0000000000000000)''),
        stale_manager, 1804000001,
        [Attempt, IsAvailable 0 Raises, IsAvailable 1 (Returns False),
         IsAvailable 2 (Returns True), FetchData 2 (Returns [])])"
proof -
  have lab: "cached_label example_env (Some 0) = ''Cached data (last updated: 0000000000000000)''"
    by code_simp
  have ff: "\<And>w. fetch_fresh_data stale_manager w =
      (([], ''No source available''), w + 4000000,
       [Attempt, IsAvailable 0 Raises, IsAvailable 1 (Returns False),
         IsAvailable 2 (Returns True), FetchData 2 (Returns [])])"
    by (simp add: fetch_fresh_data_def try_fetcher_def example_source_defs stale_manager_def)
  have forced: "get_data example_env True stale_manager 60000000 =
       (([sample_trade], ''Cached data (last updated: 0000000000000000)''),
        stale_manager, 64000000,
        [Attempt, IsAvailable 0 Raises, IsAvailable 1 (Returns False),
         IsAvailable 2 (Returns True), FetchData 2 (Returns [])])"
    unfolding lab[symmetric] by (simp add: get_data_def ff) (simp add: stale_manager_def)
  have stale: "get_data example_env False stale_manager 1800000001 =
       (([sample_trade], ''Cached data (last updated: 0000000000000000)''),
        stale_manager, 1804000001,
        [Attempt, IsAvailable 0 Raises, IsAvailable 1 (Returns False),
         IsAvailable 2 (Returns True), FetchData 2 (Returns [])])"
    unfolding lab[symmetric]
    by (simp add: get_data_def ff) (simp add: stale_manager_def example_env_def timedelta_minutes_def)
  have c: "cached_data stale_manager = Some [sample_trade]" "last_fetch_time stale_manager = Some 0"
    by (simp_all add: stale_manager_def)
  from get_data_failed_refresh_serves_cache[OF forced _ _ c] forced stale show ?thesis
    by (simp add: ff)
qed


section \<open>The cache status\<close>

text \<open>
  Claim C7 (as amended). \<open>get_cache_status\<close> leaves the manager as it was. Before any
  successful fetch its dictionary has the single key \<open>status\<close>; afterwards it has exactly
  the keys \<open>last_updated\<close>, \<open>cache_age_minutes\<close>, \<open>cache_valid\<close>,
  \<open>cache_remaining_minutes\<close> and \<open>total_records\<close>. The key \<open>has_data\<close> is in neither.
\<close>

theorem get_cache_status_keys:
  "snd (get_cache_status env dm w) = dm
   \<and> map fst (fst (get_cache_status env dm w)) =
       (if last_fetch_time dm = None then [''status'']
        else [''last_updated'', ''cache_age_minutes'', ''cache_valid'',
              ''cache_remaining_minutes'', ''total_records''])"
  by (simp add: get_cache_status_def Let_def split: option.splits)

theorem get_cache_status_keys_witness:
  "fst (get_cache_status example_env fresh_manager 60000000) =
     [(''last_updated'', PyStr ''0000000000''), (''cache_age_minutes'', PyInt 1),
      (''cache_valid'', PyBool True), (''cache_remaining_minutes'', PyInt 29),
      (''total_records'', PyInt 1)]
   \<and> fst (get_cache_status example_env (DataManager_init example_sources) 60000000) =
     [(''status'', PyStr ''No data fetched yet'')]"
proof -
  have a: "fst (get_cache_status example_env fresh_manager 60000000) =
     [(''last_updated'', PyStr ''0000000000''), (''cache_age_minutes'', PyInt 1),
      (''cache_valid'', PyBool True), (''cache_remaining_minutes'', PyInt 29),
      (''total_records'', PyInt 1)]"
    by code_simp
  have b: "fst (get_cache_status example_env (DataManager_init example_sources) 60000000) =
     [(''status'', PyStr ''No data fetched yet'')]"
    by code_simp
  from get_cache_status_keys[of example_env fresh_manager 60000000] a b show ?thesis by simp
qed

text \<open>
  The claim as stated fails: before any fetch the dictionary is \<open>{"status": ...}\<close>, and
  after a fetch it still has no key \<open>has_data\<close>.
\<close>

theorem get_cache_status_keys_counterexample:
  "map fst (fst (get_cache_status example_env (DataManager_init example_sources) 60000000))
     = [''status'']
   \<and> ''has_data'' \<notin> set (map fst (fst (get_cache_status example_env fresh_manager 60000000)))"
  by code_simp


section \<open>The pattern-based extraction\<close>

lemma randint_range:
  "randint a b g = (k, g1) \<Longrightarrow> a \<le> b \<Longrightarrow> a \<le> k \<and> k \<le> b"
proof -
  assume r: "randint a b g = (k, g1)" and ab: "a \<le> b"
  have "g 0 mod nat (b - a + 1) < nat (b - a + 1)" using ab by simp
  then have "int (g 0 mod nat (b - a + 1)) < b - a + 1" using ab by linarith
  moreover from r have "k = a + int (g 0 mod nat (b - a + 1))"
    by (auto simp: randint_def randbelow_def)
  ultimately show ?thesis by linarith
qed

lemma choice_member: "choice xs g = (x, g1) \<Longrightarrow> xs \<noteq> [] \<Longrightarrow> x \<in> set xs"
  by (auto simp: choice_def randbelow_def)


lemma make_trade_synthesized:
  assumes "make_trade env money_amounts stock_symbols i lk w g = (t, lk1, w1, g1)"
  shows "synthesized t"
proof -
  obtain pol g1' where c1: "choice politicians g = (pol, g1')"
    by (cases "choice politicians g") auto
  obtain cn lk' w' where c2: "get_company_name env (Some (stock_symbols ! i)) lk w = (cn, lk', w')"
    by (cases "get_company_name env (Some (stock_symbols ! i)) lk w") auto
  obtain d1 g2 where c3: "randint 1 30 g1' = (d1, g2)" by (cases "randint 1 30 g1'") auto
  obtain d2 g3 where c4: "randint 1 15 g2 = (d2, g3)" by (cases "randint 1 15 g2") auto
  obtain d3 g4 where c5: "randint 1 30 g3 = (d3, g4)" by (cases "randint 1 30 g3") auto
  obtain tt g5 where c6: "choice [''Buy'', ''Sell''] g4 = (tt, g5)"
    by (cases "choice [''Buy'', ''Sell''] g4") auto
  have pol: "pol \<in> set politicians"
    using choice_member[OF c1] by (simp add: politicians_def)
  have d1: "1 \<le> d1 \<and> d1 \<le> 30" using randint_range[OF c3] by simp
  have d2: "1 \<le> d2 \<and> d2 \<le> 15" using randint_range[OF c4] by simp
  have d3: "1 \<le> d3 \<and> d3 \<le> 30" using randint_range[OF c5] by simp
  have tt: "tt = ''Buy'' \<or> tt = ''Sell''" using choice_member[OF c6] by simp
  from assms c1 c2 c3 c4 c5 c6
  have fields: "owner t = ''Self''" "district t = ''Multiple''" "sector t = ''Technology''"
      "politician_name t = pol_name pol" "party t = pol_party pol"
      "chamber t = pol_chamber pol" "state t = pol_state pol"
      "reporting_delay t = d3" "transaction_type t = tt"
    by (auto simp: make_trade_def Let_def)
  from fields pol d3 tt show ?thesis
    unfolding synthesized_def by blast
qed





lemma trades_loop_synthesized:
  "trades_loop env money_amounts stock_symbols idxs acc lk w g = (ts, lk', w', g') \<Longrightarrow>
     \<exists>new. ts = acc @ new \<and> length new = length idxs \<and> (\<forall>t \<in> set new. synthesized t)"
proof (induction idxs arbitrary: acc lk w g)
  case Nil
  then show ?case by simp
next
  case (Cons i rest)
  obtain t lk1 w1 g1 where mk: "make_trade env money_amounts stock_symbols i lk w g = (t, lk1, w1, g1)"
    by (cases "make_trade env money_amounts stock_symbols i lk w g") auto
  with Cons.prems have
    "trades_loop env money_amounts stock_symbols rest (acc @ [t]) lk1 w1 g1 = (ts, lk', w', g')"
    by simp
  from Cons.IH[OF this] obtain new where
    new: "ts = (acc @ [t]) @ new" "length new = length rest" "\<forall>t \<in> set new. synthesized t"
    by blast
  with make_trade_synthesized[OF mk] show ?case
    by (intro exI[of _ "t # new"]) simp
qed

lemma generate_pattern_based_trades_synthesized:
  assumes "generate_pattern_based_trades env money_amounts stock_symbols lk w g = (ts, lk', w', g')"
  shows "length ts = min 10 (min (length money_amounts) (length stock_symbols))
       \<and> (\<forall>t \<in> set ts. synthesized t)"
  using trades_loop_synthesized[OF assms[unfolded generate_pattern_based_trades_def]]
  by auto


text \<open>
  Claim C5 (as amended). When the page text has more than five money tokens and more
  than five ticker candidates, \<open>_extract_content_patterns\<close> produces between 1 and 10
  records, as many as the smaller of the two counts allows up to 10, each with a
  reporting delay from 1 to 30 and the transaction type \<open>Buy\<close> or \<open>Sell\<close>. When it has at
  most five of either it produces no record, and changes nothing.
\<close>

theorem extract_content_patterns_threshold:
  assumes "extract_content_patterns env page_text lk w g = (ts, lk', w', g')"
  shows "(5 < length (re_findall env money_pattern page_text)
          \<and> 5 < length (re_findall env stock_pattern page_text) \<longrightarrow>
            1 \<le> length ts \<and> length ts \<le> 10
            \<and> length ts = min 10 (min (length (re_findall env money_pattern page_text))
                                     (length (re_findall env stock_pattern page_text)))
            \<and> (\<forall>t \<in> set ts. 1 \<le> reporting_delay t \<and> reporting_delay t \<le> 30
                  \<and> (transaction_type t = ''Buy'' \<or> transaction_type t = ''Sell'')))
       \<and> (length (re_findall env money_pattern page_text) \<le> 5
          \<or> length (re_findall env stock_pattern page_text) \<le> 5 \<longrightarrow>
            ts = [] \<and> lk' = lk \<and> w' = w \<and> g' = g)"
proof (cases "5 < length (re_findall env money_pattern page_text)
          \<and> 5 < length (re_findall env stock_pattern page_text)")
  case True
  with assms have gen: "generate_pattern_based_trades env
      (take 20 (re_findall env money_pattern page_text))
      (take 20 (re_findall env stock_pattern page_text)) lk w g = (ts, lk', w', g')"
    by (simp add: extract_content_patterns_def Let_def)
  from generate_pattern_based_trades_synthesized[OF gen]
  have len: "length ts = min 10 (min (length (re_findall env money_pattern page_text))
                                     (length (re_findall env stock_pattern page_text)))"
    and syn: "\<forall>t \<in> set ts. synthesized t"
    by auto
  from syn have "\<forall>t \<in> set ts. 1 \<le> reporting_delay t \<and> reporting_delay t \<le> 30
                  \<and> (transaction_type t = ''Buy'' \<or> transaction_type t = ''Sell'')"
    by (simp add: synthesized_def)
  with len True show ?thesis by simp
next
  case False
  with assms have "ts = [] \<and> lk' = lk \<and> w' = w \<and> g' = g"
    by (auto simp: extract_content_patterns_def Let_def)
  with False show ?thesis by simp
qed

theorem extract_content_patterns_threshold_witness:
  "length (re_findall example_env money_pattern six_token_page) = 6
   \<and> length (re_findall example_env stock_pattern six_token_page) = 6
   \<and> length (fst (extract_content_patterns example_env six_token_page
         CompanyNameLookup_init example_clock example_rng)) = 6
   \<and> map reporting_delay (fst (extract_content_patterns example_env six_token_page
         CompanyNameLookup_init example_clock example_rng)) = [4, 9, 14, 19, 24, 29]
   \<and> map transaction_type (fst (extract_content_patterns example_env six_token_page
         CompanyNameLookup_init example_clock example_rng)) =
       [''Buy'', ''Sell'', ''Buy'', ''Sell'', ''Buy'', ''Sell'']"
proof -
  obtain ts lk' w' g' where run: "extract_content_patterns example_env six_token_page
         CompanyNameLookup_init example_clock example_rng = (ts, lk', w', g')"
    by (cases "extract_content_patterns example_env six_token_page
         CompanyNameLookup_init example_clock example_rng") auto
  have m: "length (re_findall example_env money_pattern six_token_page) = 6" by code_simp
  have s: "length (re_findall example_env stock_pattern six_token_page) = 6" by code_simp
  have d: "map reporting_delay (fst (extract_content_patterns example_env six_token_page
         CompanyNameLookup_init example_clock example_rng)) = [4, 9, 14, 19, 24, 29]"
    by code_simp
  have t: "map transaction_type (fst (extract_content_patterns example_env six_token_page
         CompanyNameLookup_init example_clock example_rng)) =
       [''Buy'', ''Sell'', ''Buy'', ''Sell'', ''Buy'', ''Sell'']"
    by code_simp
  from extract_content_patterns_threshold[OF run] m s have "length ts = 6" by simp
  with m s d t run show ?thesis by simp
qed

text \<open>
  The claim as stated fails at exactly five tokens of each kind: the source asks for
  more than five.
\<close>

theorem extract_content_patterns_five_tokens_counterexample:
  "length (re_findall example_env money_pattern five_token_page) = 5
   \<and> length (re_findall example_env stock_pattern five_token_page) = 5
   \<and> fst (extract_content_patterns example_env five_token_page
         CompanyNameLookup_init example_clock example_rng) = []"
  by code_simp






text \<open>
  Claim C10. The roster has the three entries Pelosi, Crenshaw and Gottheimer, and every
  record of \<open>_generate_pattern_based_trades\<close> has the owner \<open>Self\<close>, the district
  \<open>Multiple\<close>, the sector \<open>Technology\<close>, and the name, party, chamber and state of one
  and the same entry of the roster.
\<close>

theorem generated_trades_roster:
  assumes "generate_pattern_based_trades env money_amounts stock_symbols lk w g = (ts, lk', w', g')"
  shows "map pol_name politicians = [''Nancy Pelosi'', ''Dan Crenshaw'', ''Josh Gottheimer'']
     \<and> (\<forall>t \<in> set ts.
           owner t = ''Self'' \<and> district t = ''Multiple'' \<and> sector t = ''Technology''
           \<and> (\<exists>p \<in> set politicians.
                  politician_name t = pol_name p \<and> party t = pol_party p
                  \<and> chamber t = pol_chamber p \<and> state t = pol_state p))"
proof -
  have "map pol_name politicians = [''Nancy Pelosi'', ''Dan Crenshaw'', ''Josh Gottheimer'']"
    by (simp add: politicians_def)
  moreover from generate_pattern_based_trades_synthesized[OF assms]
  have "\<forall>t \<in> set ts.
           owner t = ''Self'' \<and> district t = ''Multiple'' \<and> sector t = ''Technology''
           \<and> (\<exists>p \<in> set politicians.
                  politician_name t = pol_name p \<and> party t = pol_party p
                  \<and> chamber t = pol_chamber p \<and> state t = pol_state p)"
    by (simp add: synthesized_def)
  ultimately show ?thesis by blast
qed

theorem generated_trades_roster_witness:
  "map (\<lambda>t. (politician_name t, party t, chamber t, state t, district t, sector t, owner t))
     (fst (generate_pattern_based_trades example_env
       [''$1,250.00'', ''15K-50K'', ''$7''] [''NVDA'', ''MSFT'', ''TSLA'']
       CompanyNameLookup_init example_clock example_rng)) =
   [(''Nancy Pelosi'', ''Democrat'', ''House'', ''CA'', ''Multiple'', ''Technology'', ''Self''),
    (''Josh Gottheimer'', ''Democrat'', ''House'', ''NJ'', ''Multiple'', ''Technology'', ''Self''),
    (''Dan Crenshaw'', ''Republican'', ''House'', ''TX'', ''Multiple'', ''Technology'', ''Self'')]"
proof -
  obtain ts lk' w' g' where run: "generate_pattern_based_trades example_env
       [''$1,250.00'', ''15K-50K'', ''$7''] [''NVDA'', ''MSFT'', ''TSLA'']
       CompanyNameLookup_init example_clock example_rng = (ts, lk', w', g')"
    by (cases "generate_pattern_based_trades example_env
       [''$1,250.00'', ''15K-50K'', ''$7''] [''NVDA'', ''MSFT'', ''TSLA'']
       CompanyNameLookup_init example_clock example_rng") auto
  have v: "map (\<lambda>t. (politician_name t, party t, chamber t, state t, district t, sector t, owner t))
     (fst (generate_pattern_based_trades example_env
       [''$1,250.00'', ''15K-50K'', ''$7''] [''NVDA'', ''MSFT'', ''TSLA'']
       CompanyNameLookup_init example_clock example_rng)) =
   [(''Nancy Pelosi'', ''Democrat'', ''House'', ''CA'', ''Multiple'', ''Technology'', ''Self''),
    (''Josh Gottheimer'', ''Democrat'', ''House'', ''NJ'', ''Multiple'', ''Technology'', ''Self''),
    (''Dan Crenshaw'', ''Republican'', ''House'', ''TX'', ''Multiple'', ''Technology'', ''Self'')]"
    by code_simp
  from generated_trades_roster[OF run] v show ?thesis by simp
qed


end
